theory Spec2Isabelle
  imports Complex_Main "HOL-Library.Multiset"
begin

section \<open>The CIFAR-10 fine-tuning notebook: data model\<close>

text \<open>
  The notebook defines three functions, \<open>make_dataloaders\<close>, \<open>train_model\<close> and
  \<open>test_model\<close>, over objects of PyTorch. The objects are modelled as records, the
  library calls the two functions issue are taken as parameters (the record \<open>torch\<close>),
  and every mutation the source performs on a shared object is written as explicit
  state passing.

  Python floats are modelled as rationals: rounding is not represented. Python ints
  are \<open>int\<close>; lengths and counts are \<open>nat\<close>.

  \<open>make_dataloaders\<close> builds the two loaders over the training set and the test set
  of CIFAR-10, without and with shuffling; it is not modelled further. Both datasets
  are non-empty. The model keeps what the code does on an empty dataset (the division
  by its length raises), and the properties of runs that complete take the
  non-emptiness as a hypothesis.

  The calls on the library are taken to succeed: a missing dataset, an unavailable
  device, a failing write or a numeric error of the library is not modelled.
\<close>

datatype phase = Train | Validation

text \<open>
  Both errors are Python's \<open>ZeroDivisionError\<close>: the first is raised by
  \<open>logs[...] /= len(loader.dataset)\<close> on an empty dataset (a float divided by the
  int 0), the second by \<open>epoch % params['check_point']\<close> when the interval is 0.
\<close>

datatype error = FloatDivisionByZero | IntegerModuloByZero

text \<open>
  A batch is what one iteration step of a loader yields: the source unpacks it as
  \<open>image, label\<close>, two tensors with the same first dimension. It is modelled as a
  list of (image, label) pairs; \<open>image\<close> is the list of first components and
  \<open>label\<close> the list of second components.
\<close>

type_synonym 'x batch = "('x \<times> nat) list"

text \<open>
  A loader is restartable: every \<open>for ... in loader\<close> starts a new pass. A shuffling
  loader yields different batches at each pass, so the batches are indexed by the
  number of passes started before. \<open>dataset_len\<close> is \<open>len(loader.dataset)\<close>.
\<close>

record 'x loader =
  pass_batches :: "nat \<Rightarrow> 'x batch list"
  dataset_len :: nat

text \<open>The dictionary \<open>train_params\<close> of the notebook, with the keys the functions read.\<close>

record 'x params =
  description :: string
  device :: string
  num_epochs :: int
  reduce_learning_rate :: "int list"
  learning_rate :: rat
  weight_decay :: rat
  check_point :: int
  state_dict_path :: string
  train_loader :: "'x loader"
  validation_loader :: "'x loader"

text \<open>
  The model object (an \<open>nn.Module\<close>): its \<open>state_dict()\<close> (parameters and buffers),
  the gradients accumulated on its parameters, the mode flag set by \<open>train()\<close> and
  \<open>eval()\<close>, and the device it was moved to by \<open>to(device)\<close>.
\<close>

record ('p, 'g) module =
  state_dict :: 'p
  grad :: 'g
  training :: bool
  on_device :: string

text \<open>
  The library operations the source calls, as parameters.
  \<^item> \<open>forward_eval\<close>: \<open>model(image)\<close> in evaluation mode. In that mode the network is
    a function of its state dict and of each item; it updates no buffer.
  \<^item> \<open>forward_train\<close>: \<open>model(image)\<close> in training mode, which also updates buffers
    (batch-norm statistics), so it returns the new state dict.
  \<^item> \<open>top1\<close>: \<open>torch.max(prediction, 1)[1]\<close> for one item.
  \<^item> \<open>criterion\<close>: \<open>nn.CrossEntropyLoss()\<close> applied to predictions and labels.
  \<^item> \<open>backward\<close>: \<open>loss.backward()\<close>, adding the gradient of the batch loss to the
    accumulated gradients.
  \<^item> \<open>zero_grad\<close>: \<open>optimizer.zero_grad()\<close>.
  \<^item> \<open>sgd\<close>: \<open>optim.SGD(...)\<close> wrapped by \<open>MultiStepLR(...)\<close>: the initial
    optimizer and scheduler state from learning rate, weight decay and milestones.
  \<^item> \<open>optimizer_step\<close>: \<open>optimizer.step()\<close>.
  \<^item> \<open>scheduler_step\<close>: \<open>scheduler.step()\<close>.
\<close>

record ('x, 'y, 'p, 'g, 'o) torch =
  forward_eval :: "'p \<Rightarrow> 'x \<Rightarrow> 'y"
  forward_train :: "'p \<Rightarrow> 'x list \<Rightarrow> 'y list \<times> 'p"
  top1 :: "'y \<Rightarrow> nat"
  criterion :: "'y list \<Rightarrow> nat list \<Rightarrow> rat"
  backward :: "'p \<Rightarrow> 'x list \<Rightarrow> nat list \<Rightarrow> 'g \<Rightarrow> 'g"
  zero_grad :: "'g \<Rightarrow> 'g"
  sgd :: "rat \<Rightarrow> rat \<Rightarrow> int list \<Rightarrow> 'o"
  optimizer_step :: "'o \<Rightarrow> 'g \<Rightarrow> 'p \<Rightarrow> 'p \<times> 'o"
  scheduler_step :: "'o \<Rightarrow> 'o"

text \<open>
  The objects both functions reach through their arguments and mutate: the model, and
  the two loaders of \<open>params\<close>, of which only the number of passes started changes.
  That number selects the batches of the next pass and counts the passes made.
\<close>

record ('p, 'g) heap =
  model :: "('p, 'g) module"
  train_passes :: nat
  validation_passes :: nat

section \<open>Evaluation: \<open>test_model\<close>\<close>

text \<open>\<open>model(image)\<close>: the forward pass in the mode the model is in.\<close>

definition forward ::
  "('x, 'y, 'p, 'g, 'o) torch \<Rightarrow> ('p, 'g) module \<Rightarrow> 'x list \<Rightarrow> 'y list \<times> ('p, 'g) module" where
  "forward t m images =
     (if training m
      then (case forward_train t (state_dict m) images of
              (prediction, sd) \<Rightarrow> (prediction, m\<lparr>state_dict := sd\<rparr>))
      else (map (forward_eval t (state_dict m)) images, m))"

text \<open>\<open>torch.sum(torch.max(prediction, 1)[1] == label.data).item()\<close>\<close>

definition correct :: "('x, 'y, 'p, 'g, 'o) torch \<Rightarrow> 'y list \<Rightarrow> nat list \<Rightarrow> nat" where
  "correct t prediction labels =
     length (filter (\<lambda>(y, l). top1 t y = l) (zip prediction labels))"

text \<open>
  The loop of \<open>test_model\<close> over the batches of one pass; \<open>acc\<close> is
  \<open>logs['Accuracy']\<close>.
\<close>

fun test_batches ::
  "('x, 'y, 'p, 'g, 'o) torch \<Rightarrow> 'x batch list \<Rightarrow> ('p, 'g) module \<times> rat \<Rightarrow> ('p, 'g) module \<times> rat" where
  "test_batches t [] (m, acc) = (m, acc)"
| "test_batches t (b # bs) (m, acc) =
     (case forward t m (map fst b) of
        (prediction, m') \<Rightarrow>
          test_batches t bs (m', acc + of_nat (correct t prediction (map snd b))))"

text \<open>
  \<open>test_model(model, params)\<close>: the heap after the call, and the value returned or
  the error raised. \<open>model.to(device).eval()\<close> moves the caller's model and clears
  its mode flag; \<open>torch.no_grad()\<close> builds no graph, and no \<open>backward\<close> is called.
  The division by \<open>len(loader.dataset)\<close> comes after the loop.
\<close>

definition test_model ::
  "('x, 'y, 'p, 'g, 'o) torch \<Rightarrow> 'x params \<Rightarrow> ('p, 'g, 'z) heap_scheme \<Rightarrow>
     ('p, 'g, 'z) heap_scheme \<times> (error + rat)" where
  "test_model t params h =
     (let m0 = (model h)\<lparr>on_device := device params, training := False\<rparr>;
          bs = pass_batches (validation_loader params) (validation_passes h);
          (m1, acc) = test_batches t bs (m0, 0);
          h1 = h\<lparr>model := m1, validation_passes := Suc (validation_passes h)\<rparr>;
          n = dataset_len (validation_loader params)
      in (h1, if n = 0 then Inl FloatDivisionByZero else Inr (acc / of_nat n)))"

section \<open>Training: \<open>train_model\<close>\<close>

text \<open>
  The calls \<open>train_model\<close> issues on the summary writer, the scheduler, the optimizer
  and \<open>torch.save\<close>, in the order they are issued. A call made inside the epoch loop
  carries the value of \<open>epoch\<close>, and one made inside the batch loop the value of
  \<open>phase\<close>, at the call.
\<close>

datatype 'p event =
    SummaryWriter string
  | SchedulerStep int
  | ZeroGrad int phase
  | Backward int phase
  | OptimizerStep int phase
  | AddScalars string phase rat int
  | Save int string 'p
  | AddText string rat int
  | WriterClose

text \<open>What a run leaves behind: the heap, the files written and the calls issued.\<close>

record ('p, 'g) world = "('p, 'g) heap" +
  files :: "string \<rightharpoonup> 'p"
  calls :: "'p event list"

text \<open>
  The state of the epoch loop: the world and the local variables \<open>optimizer\<close> (with
  its scheduler), \<open>best_accuracy\<close> and \<open>best_model\<close>. \<open>copy.deepcopy\<close> of a state
  dict is the value of the state dict at the copy.

  \<open>observed\<close> is a history variable, written and never read by the code: the
  validation accuracies measured so far in the run, the baseline first, each with the
  state dict the model had at the measurement.
\<close>

record ('p, 'g, 'o) run = "('p, 'g) world" +
  optimizer :: 'o
  best_accuracy :: rat
  best_model :: 'p
  observed :: "(rat \<times> 'p) list"

definition world_of :: "('p, 'g, 'o) run \<Rightarrow> ('p, 'g) world" where
  "world_of s =
     \<lparr>model = model s, train_passes = train_passes s, validation_passes = validation_passes s,
      files = files s, calls = calls s\<rparr>"

text \<open>\<open>params[phase+'_loader']\<close>\<close>

fun phase_loader :: "'x params \<Rightarrow> phase \<Rightarrow> 'x loader" where
  "phase_loader params Train = train_loader params"
| "phase_loader params Validation = validation_loader params"

text \<open>Starting a pass over the loader of a phase: its batches, and the pass counted.\<close>

fun start_pass ::
  "'x params \<Rightarrow> phase \<Rightarrow> ('p, 'g, 'o) run \<Rightarrow> 'x batch list \<times> ('p, 'g, 'o) run" where
  "start_pass params Train s =
     (pass_batches (train_loader params) (train_passes s),
      s\<lparr>train_passes := Suc (train_passes s)\<rparr>)"
| "start_pass params Validation s =
     (pass_batches (validation_loader params) (validation_passes s),
      s\<lparr>validation_passes := Suc (validation_passes s)\<rparr>)"

text \<open>
  The body of the batch loop. \<open>optimizer.zero_grad()\<close> stands before the
  \<open>with torch.set_grad_enabled(phase == 'train')\<close> block and under no condition;
  \<open>loss.backward()\<close> and \<open>optimizer.step()\<close> stand under \<open>if phase == 'train'\<close>.
  The pair \<open>(loss_sum, acc_sum)\<close> is \<open>logs['Loss']\<close> and \<open>logs['Accuracy']\<close>.
\<close>

definition batch_step ::
  "('x, 'y, 'p, 'g, 'o) torch \<Rightarrow> int \<Rightarrow> phase \<Rightarrow> 'x batch \<Rightarrow>
     ('p, 'g, 'o) run \<times> rat \<times> rat \<Rightarrow> ('p, 'g, 'o) run \<times> rat \<times> rat" where
  "batch_step t epoch ph b = (\<lambda>(s, loss_sum, acc_sum).
     (let images = map fst b;
          labels = map snd b;
          m0 = (model s)\<lparr>grad := zero_grad t (grad (model s))\<rparr>;
          s1 = s\<lparr>model := m0, calls := calls s @ [ZeroGrad epoch ph]\<rparr>;
          (prediction, m1) = forward t m0 images;
          loss = criterion t prediction labels;
          accuracy = correct t prediction labels;
          loss_sum' = loss_sum + of_nat (length images) * loss;
          acc_sum' = acc_sum + of_nat accuracy
      in if ph = Train
         then (let m2 = m1\<lparr>grad := backward t (state_dict m0) images labels (grad m1)\<rparr>;
                   (sd, opt) = optimizer_step t (optimizer s1) (grad m2) (state_dict m2)
               in (s1\<lparr>model := m2\<lparr>state_dict := sd\<rparr>, optimizer := opt,
                       calls := calls s1 @ [Backward epoch ph, OptimizerStep epoch ph]\<rparr>,
                   loss_sum', acc_sum'))
         else (s1\<lparr>model := m1\<rparr>, loss_sum', acc_sum')))"

fun train_batches ::
  "('x, 'y, 'p, 'g, 'o) torch \<Rightarrow> int \<Rightarrow> phase \<Rightarrow> 'x batch list \<Rightarrow>
     ('p, 'g, 'o) run \<times> rat \<times> rat \<Rightarrow> ('p, 'g, 'o) run \<times> rat \<times> rat" where
  "train_batches t epoch ph [] acc = acc"
| "train_batches t epoch ph (b # bs) acc =
     train_batches t epoch ph bs (batch_step t epoch ph b acc)"

text \<open>
  One phase of one epoch: set the mode, run the batches, normalise the logs (the
  division raises on an empty dataset, \<open>logs['Loss']\<close> first), write them to the
  summary writer, and keep the weights when the validation accuracy is strictly above
  \<open>best_accuracy\<close>.
\<close>

definition run_phase ::
  "('x, 'y, 'p, 'g, 'o) torch \<Rightarrow> 'x params \<Rightarrow> int \<Rightarrow> phase \<Rightarrow> ('p, 'g, 'o) run \<Rightarrow>
     ('p, 'g, 'o) run \<times> error option" where
  "run_phase t params epoch ph s =
     (let s0 = s\<lparr>model := (model s)\<lparr>training := (ph = Train)\<rparr>\<rparr>;
          (bs, s1) = start_pass params ph s0;
          (s2, loss_sum, acc_sum) = train_batches t epoch ph bs (s1, 0, 0);
          n = dataset_len (phase_loader params ph)
      in if n = 0 then (s2, Some FloatDivisionByZero)
         else
           (let loss = loss_sum / of_nat n;
                acc = acc_sum / of_nat n;
                s3 = s2\<lparr>calls := calls s2 @
                        [AddScalars ''Loss'' ph loss epoch, AddScalars ''Accuracy'' ph acc epoch]\<rparr>;
                s4 = (if ph = Validation
                      then s3\<lparr>observed := observed s3 @ [(acc, state_dict (model s3))]\<rparr>
                      else s3)
            in if ph = Validation \<and> acc > best_accuracy s4
               then (s4\<lparr>best_accuracy := acc, best_model := state_dict (model s4)\<rparr>, None)
               else (s4, None)))"

text \<open>\<open>for phase in ['train', 'validation']\<close>: an error ends the loop.\<close>

fun run_phases ::
  "('x, 'y, 'p, 'g, 'o) torch \<Rightarrow> 'x params \<Rightarrow> int \<Rightarrow> phase list \<Rightarrow> ('p, 'g, 'o) run \<Rightarrow>
     ('p, 'g, 'o) run \<times> error option" where
  "run_phases t params epoch [] s = (s, None)"
| "run_phases t params epoch (ph # phs) s =
     (case run_phase t params epoch ph s of
        (s', None) \<Rightarrow> run_phases t params epoch phs s'
      | (s', Some err) \<Rightarrow> (s', Some err))"

text \<open>
  The checkpoint at the end of an epoch. \<open>epoch % params['check_point']\<close> is the left
  operand of \<open>or\<close> and is evaluated first; Python's \<open>%\<close> on ints is \<open>mod\<close> on
  \<open>int\<close> (the sign of the divisor) and raises on a zero divisor.
\<close>

definition checkpoint_path :: "'x params \<Rightarrow> string" where
  "checkpoint_path params = state_dict_path params @ description params @ ''.pt''"

definition checkpoint ::
  "'x params \<Rightarrow> int \<Rightarrow> ('p, 'g, 'o) run \<Rightarrow> ('p, 'g, 'o) run \<times> error option" where
  "checkpoint params epoch s =
     (if check_point params = 0 then (s, Some IntegerModuloByZero)
      else if epoch mod check_point params = 0 \<or> epoch = num_epochs params - 1
      then (s\<lparr>files := (files s)(checkpoint_path params \<mapsto> best_model s),
               calls := calls s @ [Save epoch (checkpoint_path params) (best_model s)]\<rparr>, None)
      else (s, None))"

text \<open>The body of the epoch loop.\<close>

definition epoch_step ::
  "('x, 'y, 'p, 'g, 'o) torch \<Rightarrow> 'x params \<Rightarrow> int \<Rightarrow> ('p, 'g, 'o) run \<Rightarrow>
     ('p, 'g, 'o) run \<times> error option" where
  "epoch_step t params epoch s =
     (let s1 = s\<lparr>optimizer := scheduler_step t (optimizer s),
                 calls := calls s @ [SchedulerStep epoch]\<rparr>
      in case run_phases t params epoch [Train, Validation] s1 of
           (s2, None) \<Rightarrow> checkpoint params epoch s2
         | (s2, Some err) \<Rightarrow> (s2, Some err))"

fun run_epochs ::
  "('x, 'y, 'p, 'g, 'o) torch \<Rightarrow> 'x params \<Rightarrow> int list \<Rightarrow> ('p, 'g, 'o) run \<Rightarrow>
     ('p, 'g, 'o) run \<times> error option" where
  "run_epochs t params [] s = (s, None)"
| "run_epochs t params (epoch # epochs) s =
     (case epoch_step t params epoch s of
        (s', None) \<Rightarrow> run_epochs t params epochs s'
      | (s', Some err) \<Rightarrow> (s', Some err))"

text \<open>\<open>range(n)\<close> for an int \<open>n\<close>: empty when \<open>n \<le> 0\<close>.\<close>

definition range_py :: "int \<Rightarrow> int list" where
  "range_py n = map int [0..<nat n]"

text \<open>
  The statements of \<open>train_model\<close> before the epoch loop: the summary writer, the
  model moved to the device, the optimizer and its scheduler, the baseline from
  \<open>test_model\<close> and the first snapshot. When \<open>test_model\<close> raises, the run ends
  there.
\<close>

definition open_run :: "'x params \<Rightarrow> ('p, 'g) heap \<Rightarrow> (string \<rightharpoonup> 'p) \<Rightarrow> ('p, 'g) world" where
  "open_run params h fs =
     \<lparr>model = (model h)\<lparr>on_device := device params\<rparr>,
      train_passes = train_passes h, validation_passes = validation_passes h,
      files = fs, calls = [SummaryWriter (''runs/'' @ description params)]\<rparr>"

definition begin_run ::
  "('x, 'y, 'p, 'g, 'o) torch \<Rightarrow> 'x params \<Rightarrow> ('p, 'g) heap \<Rightarrow> (string \<rightharpoonup> 'p) \<Rightarrow>
     ('p, 'g) world \<times> error + ('p, 'g, 'o) run" where
  "begin_run t params h fs =
     (let opt = sgd t (learning_rate params) (weight_decay params) (reduce_learning_rate params)
      in case test_model t params (open_run params h fs) of
           (w1, Inl err) \<Rightarrow> Inl (w1, err)
         | (w1, Inr acc) \<Rightarrow>
             Inr \<lparr>model = model w1, train_passes = train_passes w1,
                  validation_passes = validation_passes w1,
                  files = files w1, calls = calls w1,
                  optimizer = opt, best_accuracy = acc, best_model = state_dict (model w1),
                  observed = [(acc, state_dict (model w1))]\<rparr>)"

text \<open>
  \<open>train_model(model, params)\<close> from a heap and a file system: the world it leaves,
  and the error it raised if any. The function returns nothing.
\<close>

definition train_model ::
  "('x, 'y, 'p, 'g, 'o) torch \<Rightarrow> 'x params \<Rightarrow> ('p, 'g) heap \<Rightarrow> (string \<rightharpoonup> 'p) \<Rightarrow>
     ('p, 'g) world \<times> error option" where
  "train_model t params h fs =
     (case begin_run t params h fs of
        Inl (w, err) \<Rightarrow> (w, Some err)
      | Inr s0 \<Rightarrow>
          (case run_epochs t params (range_py (num_epochs params)) s0 of
             (s1, Some err) \<Rightarrow> (world_of s1, Some err)
           | (s1, None) \<Rightarrow>
               (case test_model t params s1 of
                  (s2, Inl err) \<Rightarrow> (world_of s2, Some err)
                | (s2, Inr final_accuracy) \<Rightarrow>
                    (world_of (s2\<lparr>calls := calls s2 @
                        [AddText ''Final_Accuracy'' final_accuracy 0, WriterClose]\<rparr>), None))))"

text \<open>
  The state of the epoch loop after the first \<open>k\<close> epochs of a run begun in \<open>s0\<close>;
  when one of them raised, the state at the error. The loop of \<open>train_model\<close> goes
  through these states for \<open>k\<close> up to the epoch count.
\<close>

definition after_epochs ::
  "('x, 'y, 'p, 'g, 'o) torch \<Rightarrow> 'x params \<Rightarrow> ('p, 'g, 'o) run \<Rightarrow> nat \<Rightarrow> ('p, 'g, 'o) run" where
  "after_epochs t params s0 k = fst (run_epochs t params (map int [0..<k]) s0)"

section \<open>Notions used to state the properties\<close>

text \<open>
  The number of items of a list that a model with state dict \<open>sd\<close> classifies
  correctly in evaluation mode: its top-1 class equals the label.
\<close>

definition top1_hits :: "('x, 'y, 'p, 'g, 'o) torch \<Rightarrow> 'p \<Rightarrow> ('x \<times> nat) list \<Rightarrow> nat" where
  "top1_hits t sd items = length (filter (\<lambda>(x, l). top1 t (forward_eval t sd x) = l) items)"

text \<open>The optimizer calls of one batch, by phase.\<close>

fun batch_calls :: "int \<Rightarrow> phase \<Rightarrow> 'p event list" where
  "batch_calls epoch Train = [ZeroGrad epoch Train, Backward epoch Train, OptimizerStep epoch Train]"
| "batch_calls epoch Validation = [ZeroGrad epoch Validation]"

text \<open>The two summary-writer calls at the end of a phase.\<close>

fun scalar_calls :: "phase \<Rightarrow> rat \<Rightarrow> rat \<Rightarrow> int \<Rightarrow> 'p event list" where
  "scalar_calls ph loss acc epoch =
     [AddScalars ''Loss'' ph loss epoch, AddScalars ''Accuracy'' ph acc epoch]"

text \<open>The checkpoint writes among a list of calls: epoch, path and content.\<close>

fun saved :: "'p event \<Rightarrow> (int \<times> string \<times> 'p) list" where
  "saved (Save epoch path sd) = [(epoch, path, sd)]"
| "saved _ = []"

definition saves :: "'p event list \<Rightarrow> (int \<times> string \<times> 'p) list" where
  "saves cs = concat (map saved cs)"

fun is_optimizer_step :: "'p event \<Rightarrow> bool" where
  "is_optimizer_step (OptimizerStep epoch ph) = True"
| "is_optimizer_step _ = False"

fun is_zero_grad :: "phase \<Rightarrow> 'p event \<Rightarrow> bool" where
  "is_zero_grad ph (ZeroGrad epoch ph') = (ph' = ph)"
| "is_zero_grad ph _ = False"

text \<open>
  The number of batches of a phase that a list of calls went through: each batch of
  the batch loop issues one \<open>optimizer.zero_grad()\<close>.
\<close>

definition batches_run :: "phase \<Rightarrow> 'p event list \<Rightarrow> nat" where
  "batches_run ph cs = length (filter (is_zero_grad ph) cs)"

text \<open>
  \<open>first_best obs bm\<close>: the pair \<open>bm\<close> is the earliest entry of \<open>obs\<close> whose accuracy
  is the highest of \<open>obs\<close>.
\<close>

definition first_best :: "(rat \<times> 'p) list \<Rightarrow> rat \<times> 'p \<Rightarrow> bool" where
  "first_best obs bm =
     (\<exists>i<length obs. obs ! i = bm \<and> (\<forall>j<length obs. fst (obs ! j) \<le> fst bm) \<and>
        (\<forall>j<i. fst (obs ! j) < fst bm))"

text \<open>
  The validation accuracies among a list of calls: the values written to the summary
  writer under \<open>'Accuracy'\<close> for the validation phase, in order.
\<close>

fun logged :: "'p event \<Rightarrow> rat list" where
  "logged (AddScalars tag ph v epoch) = (if tag = ''Accuracy'' \<and> ph = Validation then [v] else [])"
| "logged _ = []"

definition validation_accuracies :: "'p event list \<Rightarrow> rat list" where
  "validation_accuracies cs = concat (map logged cs)"

text \<open>
  \<open>measured_on t params (a, sd)\<close>: the accuracy \<open>a\<close> is the fraction of the validation
  dataset that a model with state dict \<open>sd\<close> classifies correctly on the batches of
  some pass of the validation feed.
\<close>

definition measured_on ::
  "('x, 'y, 'p, 'g, 'o) torch \<Rightarrow> 'x params \<Rightarrow> rat \<times> 'p \<Rightarrow> bool" where
  "measured_on t params ap =
     (\<exists>k. fst ap =
        of_nat (top1_hits t (snd ap) (concat (pass_batches (validation_loader params) k))) /
        of_nat (dataset_len (validation_loader params)))"

text \<open>
  The epochs among the first \<open>k\<close> whose index is a multiple of the checkpoint interval
  or is the last index of the run.
\<close>

definition checkpoint_epochs :: "'x params \<Rightarrow> nat \<Rightarrow> int list" where
  "checkpoint_epochs params k =
     filter (\<lambda>e. e mod check_point params = 0 \<or> e = num_epochs params - 1) (map int [0..<k])"

section \<open>A small instance\<close>

text \<open>
  A network whose state dict is the class it predicts for every image; each training
  batch moves it to the next class. Images are numbered; the validation set has four
  items in two batches, one of class 0 and three of class 1.
\<close>

definition demo_torch :: "(nat, nat, nat, nat, nat) torch" where
  "demo_torch =
     \<lparr>forward_eval = (\<lambda>sd x. sd),
      forward_train = (\<lambda>sd xs. (map (\<lambda>x. sd) xs, sd)),
      top1 = (\<lambda>y. y),
      criterion = (\<lambda>ys ls. 1),
      backward = (\<lambda>sd xs ls g. g + 1),
      zero_grad = (\<lambda>g. 0),
      sgd = (\<lambda>lr wd ms. 0),
      optimizer_step = (\<lambda>opt g sd. (sd + g, opt)),
      scheduler_step = Suc\<rparr>"

definition demo_loader :: "nat batch list \<Rightarrow> nat loader" where
  "demo_loader bs = \<lparr>pass_batches = (\<lambda>k. bs), dataset_len = length (concat bs)\<rparr>"

definition demo_params :: "int \<Rightarrow> int \<Rightarrow> nat params" where
  "demo_params n c =
     \<lparr>description = ''densenet161'', device = ''cpu'', num_epochs = n,
      reduce_learning_rate = [200, 400], learning_rate = 5 / 100, weight_decay = 1 / 1000,
      check_point = c, state_dict_path = ''trained_models/'',
      train_loader = demo_loader [[(0, 0), (1, 1)]],
      validation_loader = demo_loader [[(0, 0), (1, 1)], [(2, 1), (3, 1)]]\<rparr>"

text \<open>One batch of four images with the labels 0, 0, 1, 1.\<close>

definition scenario_params :: "nat params" where
  "scenario_params =
     (demo_params 0 1)\<lparr>validation_loader := demo_loader [[(0, 0), (1, 0), (2, 1), (3, 1)]]\<rparr>"

text \<open>A freshly built model: in training mode, predicting class 0.\<close>

definition demo_heap :: "(nat, nat) heap" where
  "demo_heap =
     \<lparr>model = \<lparr>state_dict = 0, grad = 0, training = True, on_device = ''cpu''\<rparr>,
      train_passes = 0, validation_passes = 0\<rparr>"

text \<open>The state of the epoch loop at its start, for the instance.\<close>

definition demo_start :: "(nat, nat, nat) run" where
  "demo_start =
     \<lparr>model = \<lparr>state_dict = 0, grad = 0, training = False, on_device = ''cpu''\<rparr>,
      train_passes = 0, validation_passes = 1, files = Map.empty,
      calls = [SummaryWriter ''runs/densenet161''], optimizer = 0,
      best_accuracy = 1 / 4, best_model = 0, observed = [(1 / 4, 0)]\<rparr>"

lemmas demo_defs = demo_torch_def demo_params_def demo_loader_def demo_heap_def demo_start_def
  scenario_params_def

lemmas run_defs = begin_run_def open_run_def test_model_def forward_def correct_def
  after_epochs_def epoch_step_def run_phase_def batch_step_def checkpoint_def checkpoint_path_def
  train_model_def range_py_def world_of_def

section \<open>Properties of \<open>test_model\<close>\<close>

lemma forward_eval_mode:
  "\<not> training m \<Longrightarrow> forward t m images = (map (forward_eval t (state_dict m)) images, m)"
  by (simp add: forward_def)

lemma correct_eval:
  "correct t (map (forward_eval t sd \<circ> fst) b) (map snd b) =
     length (filter (\<lambda>(x, l). top1 t (forward_eval t sd x) = l) b)"
  by (induction b) (auto simp: correct_def)

lemma test_batches_eval:
  "\<not> training m \<Longrightarrow>
   test_batches t bs (m, acc) =
     (m, acc + of_nat (length (filter (\<lambda>(x, l). top1 t (forward_eval t (state_dict m) x) = l) (concat bs))))"
  by (induction bs arbitrary: acc) (simp_all add: forward_eval_mode correct_eval)

lemma test_model_eq:
  "test_model t params h =
     (h\<lparr>model := (model h)\<lparr>on_device := device params, training := False\<rparr>,
        validation_passes := Suc (validation_passes h)\<rparr>,
      if dataset_len (validation_loader params) = 0 then Inl FloatDivisionByZero
      else Inr (of_nat (length (filter (\<lambda>(x, l). top1 t (forward_eval t (state_dict (model h)) x) = l)
                  (concat (pass_batches (validation_loader params) (validation_passes h)))))
                / of_nat (dataset_len (validation_loader params))))"
  by (simp add: test_model_def Let_def test_batches_eval)

lemma count_mset:
  "mset xs = mset ys \<Longrightarrow> length (filter P xs) = length (filter P ys)"
  by (metis mset_filter size_mset)

text \<open>On an empty dataset the division after the loop raises.\<close>

lemma test_model_empty_dataset:
  "dataset_len (validation_loader params) = 0 \<Longrightarrow>
   snd (test_model t params h) = Inl FloatDivisionByZero"
  by (simp add: test_model_eq)

section \<open>Properties of the loops of \<open>train_model\<close>\<close>

lemma batch_step_frame:
  assumes "batch_step t epoch ph b (s, l, a) = (s', l', a')"
  shows "files s' = files s" "best_accuracy s' = best_accuracy s" "best_model s' = best_model s"
    "observed s' = observed s" "train_passes s' = train_passes s"
    "validation_passes s' = validation_passes s" "training (model s') = training (model s)"
    "calls s' = calls s @ batch_calls epoch ph"
  using assms
  by (cases ph; auto simp: batch_step_def Let_def forward_def split: prod.splits if_splits)+

lemma train_batches_frame:
  assumes "train_batches t epoch ph bs (s, l, a) = (s', l', a')"
  shows "files s' = files s \<and> best_accuracy s' = best_accuracy s \<and> best_model s' = best_model s \<and>
    observed s' = observed s \<and> train_passes s' = train_passes s \<and>
    validation_passes s' = validation_passes s \<and> training (model s') = training (model s) \<and>
    calls s' = calls s @ concat (map (\<lambda>b. batch_calls epoch ph) bs)"
  using assms
proof (induction bs arbitrary: s l a)
  case Nil
  then show ?case by simp
next
  case (Cons b bs)
  obtain s1 l1 a1 where st: "batch_step t epoch ph b (s, l, a) = (s1, l1, a1)"
    by (cases "batch_step t epoch ph b (s, l, a)") auto
  with Cons.prems have "train_batches t epoch ph bs (s1, l1, a1) = (s', l', a')"
    by simp
  from Cons.IH [OF this] batch_step_frame [OF st] show ?case
    by simp
qed

lemma run_phase_Train:
  assumes "run_phase t params epoch Train s = (s', r)"
  shows "r = (if dataset_len (train_loader params) = 0 then Some FloatDivisionByZero else None)"
    "files s' = files s" "best_accuracy s' = best_accuracy s" "best_model s' = best_model s"
    "observed s' = observed s" "train_passes s' = Suc (train_passes s)"
    "validation_passes s' = validation_passes s"
    "\<exists>loss acc. calls s' = calls s @
        concat (map (\<lambda>b. batch_calls epoch Train) (pass_batches (train_loader params) (train_passes s))) @
        (if dataset_len (train_loader params) = 0 then [] else scalar_calls Train loss acc epoch)"
proof -
  let ?s1 = "s\<lparr>model := (model s)\<lparr>training := True\<rparr>, train_passes := Suc (train_passes s)\<rparr>"
  let ?bs = "pass_batches (train_loader params) (train_passes s)"
  let ?n = "dataset_len (train_loader params)"
  obtain s2 l a where tb: "train_batches t epoch Train ?bs (?s1, 0, 0) = (s2, l, a)"
    by (cases "train_batches t epoch Train ?bs (?s1, 0, 0)") auto
  note f = train_batches_frame [OF tb]
  from assms tb have r: "r = (if ?n = 0 then Some FloatDivisionByZero else None)"
    and s': "s' = (if ?n = 0 then s2
                   else s2\<lparr>calls := calls s2 @ scalar_calls Train (l / of_nat ?n) (a / of_nat ?n) epoch\<rparr>)"
    by (simp_all add: run_phase_def Let_def split: if_splits)
  show "r = (if ?n = 0 then Some FloatDivisionByZero else None)" by (rule r)
  show "files s' = files s" using f s' by simp
  show "best_accuracy s' = best_accuracy s" using f s' by simp
  show "best_model s' = best_model s" using f s' by simp
  show "observed s' = observed s" using f s' by simp
  show "train_passes s' = Suc (train_passes s)" using f s' by simp
  show "validation_passes s' = validation_passes s" using f s' by simp
  have "calls s' = calls s @ concat (map (\<lambda>b. batch_calls epoch Train) ?bs) @
        (if ?n = 0 then [] else scalar_calls Train (l / of_nat ?n) (a / of_nat ?n) epoch)"
    using f s' by simp
  then show "\<exists>loss acc. calls s' = calls s @ concat (map (\<lambda>b. batch_calls epoch Train) ?bs) @
        (if ?n = 0 then [] else scalar_calls Train loss acc epoch)"
    by blast
qed

lemma run_phase_Validation:
  assumes "run_phase t params epoch Validation s = (s', r)"
  shows "r = (if dataset_len (validation_loader params) = 0 then Some FloatDivisionByZero else None)"
    "files s' = files s" "train_passes s' = train_passes s"
    "validation_passes s' = Suc (validation_passes s)"
    "\<exists>loss acc. calls s' = calls s @
        concat (map (\<lambda>b. batch_calls epoch Validation)
          (pass_batches (validation_loader params) (validation_passes s))) @
        (if dataset_len (validation_loader params) = 0 then []
         else scalar_calls Validation loss acc epoch) \<and>
        (if dataset_len (validation_loader params) = 0
         then observed s' = observed s \<and> best_accuracy s' = best_accuracy s \<and>
           best_model s' = best_model s
         else observed s' = observed s @ [(acc, state_dict (model s'))] \<and>
           (best_accuracy s', best_model s') =
             (if acc > best_accuracy s then (acc, state_dict (model s'))
              else (best_accuracy s, best_model s)))"
proof -
  let ?s1 = "s\<lparr>model := (model s)\<lparr>training := False\<rparr>,
               validation_passes := Suc (validation_passes s)\<rparr>"
  let ?bs = "pass_batches (validation_loader params) (validation_passes s)"
  let ?n = "dataset_len (validation_loader params)"
  obtain s2 l a where tb: "train_batches t epoch Validation ?bs (?s1, 0, 0) = (s2, l, a)"
    by (cases "train_batches t epoch Validation ?bs (?s1, 0, 0)") auto
  note f = train_batches_frame [OF tb]
  let ?acc = "a / of_nat ?n"
  let ?s4 = "s2\<lparr>calls := calls s2 @ scalar_calls Validation (l / of_nat ?n) ?acc epoch,
                observed := observed s2 @ [(?acc, state_dict (model s2))]\<rparr>"
  from assms tb have r: "r = (if ?n = 0 then Some FloatDivisionByZero else None)"
    and s': "s' = (if ?n = 0 then s2
                   else if ?acc > best_accuracy s2
                   then ?s4\<lparr>best_accuracy := ?acc, best_model := state_dict (model s2)\<rparr>
                   else ?s4)"
    by (simp_all add: run_phase_def Let_def split: if_splits)
  show "r = (if ?n = 0 then Some FloatDivisionByZero else None)" by (rule r)
  show "files s' = files s" using f s' by simp
  show "train_passes s' = train_passes s" using f s' by simp
  show "validation_passes s' = Suc (validation_passes s)" using f s' by simp
  have "calls s' = calls s @ concat (map (\<lambda>b. batch_calls epoch Validation) ?bs) @
        (if ?n = 0 then [] else scalar_calls Validation (l / of_nat ?n) ?acc epoch) \<and>
        (if ?n = 0
         then observed s' = observed s \<and> best_accuracy s' = best_accuracy s \<and>
           best_model s' = best_model s
         else observed s' = observed s @ [(?acc, state_dict (model s'))] \<and>
           (best_accuracy s', best_model s') =
             (if ?acc > best_accuracy s then (?acc, state_dict (model s'))
              else (best_accuracy s, best_model s)))"
    using f s' by simp
  then show "\<exists>loss acc. calls s' = calls s @
        concat (map (\<lambda>b. batch_calls epoch Validation) ?bs) @
        (if ?n = 0 then [] else scalar_calls Validation loss acc epoch) \<and>
        (if ?n = 0
         then observed s' = observed s \<and> best_accuracy s' = best_accuracy s \<and>
           best_model s' = best_model s
         else observed s' = observed s @ [(acc, state_dict (model s'))] \<and>
           (best_accuracy s', best_model s') =
             (if acc > best_accuracy s then (acc, state_dict (model s'))
              else (best_accuracy s, best_model s)))"
    by blast
qed

lemma saves_append [simp]: "saves (xs @ ys) = saves xs @ saves ys"
  by (simp add: saves_def)

lemma saves_Nil [simp]: "saves [] = []"
  by (simp add: saves_def)

lemma saves_Cons [simp]: "saves (c # cs) = saved c @ saves cs"
  by (simp add: saves_def)

lemma saves_batch_calls [simp]: "saves (concat (map (\<lambda>b. batch_calls epoch ph) bs)) = []"
  by (induction bs) (cases ph; simp)+

lemma first_best_single: "first_best [bm] bm"
  by (simp add: first_best_def)

lemma first_best_snoc:
  assumes "first_best obs (b, m)"
  shows "first_best (obs @ [(a, p)]) (if a > b then (a, p) else (b, m))"
proof (cases "a > b")
  case True
  from assms have le: "\<forall>j<length obs. fst (obs ! j) \<le> b"
    by (auto simp: first_best_def)
  have "\<forall>j<length obs. fst ((obs @ [(a, p)]) ! j) < a"
    using le True by (auto simp: nth_append)
  then show ?thesis
    using True unfolding first_best_def
    by (intro exI [of _ "length obs"]) (auto simp: nth_append less_Suc_eq intro: less_imp_le)
next
  case False
  from assms obtain i where i: "i < length obs" "obs ! i = (b, m)"
    "\<forall>j<length obs. fst (obs ! j) \<le> b" "\<forall>j<i. fst (obs ! j) < b"
    by (auto simp: first_best_def)
  show ?thesis
    using False i unfolding first_best_def
    by (intro exI [of _ i]) (auto simp: nth_append less_Suc_eq)
qed

lemma checkpoint_frame:
  assumes "checkpoint params epoch s = (s', r)"
  shows "best_accuracy s' = best_accuracy s" "best_model s' = best_model s"
    "observed s' = observed s" "train_passes s' = train_passes s"
    "validation_passes s' = validation_passes s"
    "r = (if check_point params = 0 then Some IntegerModuloByZero else None)"
    "saves (calls s') = saves (calls s) @
       (if check_point params \<noteq> 0 \<and>
           (epoch mod check_point params = 0 \<or> epoch = num_epochs params - 1)
        then [(epoch, checkpoint_path params, best_model s)] else [])"
    "files s' =
       (if check_point params \<noteq> 0 \<and>
           (epoch mod check_point params = 0 \<or> epoch = num_epochs params - 1)
        then (files s)(checkpoint_path params \<mapsto> best_model s) else files s)"
    "filter is_optimizer_step (calls s') = filter is_optimizer_step (calls s)"
  using assms by (auto simp: checkpoint_def split: if_splits)

lemma epoch_step_cases:
  assumes "epoch_step t params epoch s = (s', r)"
  obtains s2 r2 s3 r3 where
    "run_phase t params epoch Train
       (s\<lparr>optimizer := scheduler_step t (optimizer s), calls := calls s @ [SchedulerStep epoch]\<rparr>) =
       (s2, r2)"
    "run_phase t params epoch Validation s2 = (s3, r3)"
    "(s', r) = (case r2 of Some err \<Rightarrow> (s2, Some err)
                | None \<Rightarrow> (case r3 of Some err \<Rightarrow> (s3, Some err)
                            | None \<Rightarrow> checkpoint params epoch s3))"
proof -
  let ?s1 = "s\<lparr>optimizer := scheduler_step t (optimizer s), calls := calls s @ [SchedulerStep epoch]\<rparr>"
  obtain s2 r2 where p1: "run_phase t params epoch Train ?s1 = (s2, r2)"
    by (cases "run_phase t params epoch Train ?s1") auto
  obtain s3 r3 where p2: "run_phase t params epoch Validation s2 = (s3, r3)"
    by (cases "run_phase t params epoch Validation s2") auto
  have "epoch_step t params epoch s = (case r2 of Some err \<Rightarrow> (s2, Some err)
                | None \<Rightarrow> (case r3 of Some err \<Rightarrow> (s3, Some err)
                            | None \<Rightarrow> checkpoint params epoch s3))"
    by (simp add: epoch_step_def Let_def p1 p2 split: option.splits)
  with assms have "(s', r) = (case r2 of Some err \<Rightarrow> (s2, Some err)
                | None \<Rightarrow> (case r3 of Some err \<Rightarrow> (s3, Some err)
                            | None \<Rightarrow> checkpoint params epoch s3))"
    by simp
  with p1 p2 show thesis by (rule that)
qed

lemma epoch_step_best:
  assumes "epoch_step t params epoch s = (s', r)"
  shows "best_accuracy s \<le> best_accuracy s'"
    and "best_accuracy s < best_accuracy s' \<or>
         (best_accuracy s' = best_accuracy s \<and> best_model s' = best_model s)"
    and "first_best (observed s) (best_accuracy s, best_model s) \<Longrightarrow>
         first_best (observed s') (best_accuracy s', best_model s')"
proof -
  let ?s1 = "s\<lparr>optimizer := scheduler_step t (optimizer s), calls := calls s @ [SchedulerStep epoch]\<rparr>"
  from assms obtain s2 r2 s3 r3 where
    p1: "run_phase t params epoch Train ?s1 = (s2, r2)" and
    p2: "run_phase t params epoch Validation s2 = (s3, r3)" and
    e: "(s', r) = (case r2 of Some err \<Rightarrow> (s2, Some err)
                | None \<Rightarrow> (case r3 of Some err \<Rightarrow> (s3, Some err)
                            | None \<Rightarrow> checkpoint params epoch s3))"
    by (rule epoch_step_cases)
  note t = run_phase_Train [OF p1]
  have s2: "best_accuracy s2 = best_accuracy s" "best_model s2 = best_model s"
    "observed s2 = observed s"
    using t by simp_all
  from run_phase_Validation(5) [OF p2] obtain acc where
    v: "if dataset_len (validation_loader params) = 0
         then observed s3 = observed s2 \<and> best_accuracy s3 = best_accuracy s2 \<and>
           best_model s3 = best_model s2
         else observed s3 = observed s2 @ [(acc, state_dict (model s3))] \<and>
           (best_accuracy s3, best_model s3) =
             (if acc > best_accuracy s2 then (acc, state_dict (model s3))
              else (best_accuracy s2, best_model s2))"
    by blast
  have s3a: "best_accuracy s \<le> best_accuracy s3"
    using v s2 by (auto split: if_splits)
  have s3b: "best_accuracy s < best_accuracy s3 \<or>
         (best_accuracy s3 = best_accuracy s \<and> best_model s3 = best_model s)"
    using v s2 by (auto split: if_splits)
  have s3c: "first_best (observed s) (best_accuracy s, best_model s) \<Longrightarrow>
         first_best (observed s3) (best_accuracy s3, best_model s3)"
  proof (cases "dataset_len (validation_loader params) = 0")
    case True
    assume "first_best (observed s) (best_accuracy s, best_model s)"
    with True v s2 show ?thesis by simp
  next
    case False
    assume "first_best (observed s) (best_accuracy s, best_model s)"
    note fb = first_best_snoc [OF this, of acc "state_dict (model s3)"]
    have ob: "observed s3 = observed s @ [(acc, state_dict (model s3))]"
      using v False s2 by simp
    have bm: "(best_accuracy s3, best_model s3) =
        (if acc > best_accuracy s then (acc, state_dict (model s3))
         else (best_accuracy s, best_model s))"
      using v False s2 by (auto split: if_splits)
    from fb show ?thesis by (simp only: ob bm)
  qed
  have fin: "(best_accuracy s', best_model s', observed s') =
               (best_accuracy s2, best_model s2, observed s2) \<or>
             (best_accuracy s', best_model s', observed s') =
               (best_accuracy s3, best_model s3, observed s3)"
  proof (cases r2)
    case (Some err)
    with e show ?thesis by simp
  next
    case None
    show ?thesis
    proof (cases r3)
      case (Some err)
      with None e show ?thesis by simp
    next
      case n3: None
      with None e have c: "checkpoint params epoch s3 = (s', r)" by simp
      from checkpoint_frame(1-3) [OF c] show ?thesis by simp
    qed
  qed
  from fin s2 s3a show "best_accuracy s \<le> best_accuracy s'" by auto
  from fin s2 s3b show "best_accuracy s < best_accuracy s' \<or>
         (best_accuracy s' = best_accuracy s \<and> best_model s' = best_model s)" by auto
  from fin s2 s3c show "first_best (observed s) (best_accuracy s, best_model s) \<Longrightarrow>
         first_best (observed s') (best_accuracy s', best_model s')" by auto
qed

lemma run_epochs_append:
  "run_epochs t params (es @ es') s =
     (case run_epochs t params es s of
        (s', None) \<Rightarrow> run_epochs t params es' s'
      | (s', Some err) \<Rightarrow> (s', Some err))"
  by (induction es arbitrary: s) (auto split: prod.splits option.splits)

lemma run_epochs_best:
  assumes "run_epochs t params es s = (s', r)"
  shows "best_accuracy s \<le> best_accuracy s' \<and>
    (first_best (observed s) (best_accuracy s, best_model s) \<longrightarrow>
     first_best (observed s') (best_accuracy s', best_model s'))"
  using assms
proof (induction es arbitrary: s)
  case Nil
  then show ?case by simp
next
  case (Cons e es)
  obtain s1 r1 where st: "epoch_step t params e s = (s1, r1)"
    by (cases "epoch_step t params e s") auto
  note b = epoch_step_best [OF st]
  show ?case
  proof (cases r1)
    case None
    from Cons.prems have "run_epochs t params es s1 = (s', r)" by (simp add: st None)
    from Cons.IH [OF this] b show ?thesis by auto
  next
    case (Some err)
    from Cons.prems b show ?thesis by (simp add: st Some)
  qed
qed

lemma after_epochs_0 [simp]: "after_epochs t params s0 0 = s0"
  by (simp add: after_epochs_def)

lemma after_epochs_Suc:
  "after_epochs t params s0 (Suc k) =
     (case run_epochs t params (map int [0..<k]) s0 of
        (s, None) \<Rightarrow> fst (epoch_step t params (int k) s)
      | (s, Some err) \<Rightarrow> s)"
  by (simp add: after_epochs_def run_epochs_append split: prod.splits option.splits)

lemma after_epochs_le:
  assumes "i \<le> j"
  shows "\<exists>es r. run_epochs t params es (after_epochs t params s0 i) = (after_epochs t params s0 j, r)"
proof -
  from assms have split: "map int [0..<j] = map int [0..<i] @ map int [i..<j]"
    by (metis le_add_diff_inverse map_append upt_add_eq_append zero_le)
  obtain s r where a: "run_epochs t params (map int [0..<i]) s0 = (s, r)"
    by (cases "run_epochs t params (map int [0..<i]) s0") auto
  show ?thesis
  proof (cases r)
    case None
    obtain s' r' where b: "run_epochs t params (map int [i..<j]) s = (s', r')"
      by (cases "run_epochs t params (map int [i..<j]) s") auto
    have "after_epochs t params s0 j = s'" "after_epochs t params s0 i = s"
      by (simp_all add: after_epochs_def split run_epochs_append a b None)
    with b show ?thesis by blast
  next
    case (Some err)
    have "after_epochs t params s0 j = s" "after_epochs t params s0 i = s"
      by (simp_all add: after_epochs_def split run_epochs_append a Some)
    moreover have "run_epochs t params [] s = (s, None)" by simp
    ultimately show ?thesis by metis
  qed
qed

lemma begin_run_Inr:
  assumes "begin_run t params h fs = Inr s0"
  shows "snd (test_model t params (open_run params h fs)) = Inr (best_accuracy s0)"
    "observed s0 = [(best_accuracy s0, best_model s0)]"
    "best_model s0 = state_dict (model s0)"
  using assms
  by (auto simp: begin_run_def Let_def split: prod.splits sum.splits)

lemma epoch_step_nonempty:
  assumes "epoch_step t params epoch s = (s', r)"
    and "dataset_len (train_loader params) \<noteq> 0"
    and "dataset_len (validation_loader params) \<noteq> 0"
  shows "r = (if check_point params = 0 then Some IntegerModuloByZero else None)"
    "train_passes s' = Suc (train_passes s)"
    "validation_passes s' = Suc (validation_passes s)"
    "saves (calls s') = saves (calls s) @
       (if check_point params \<noteq> 0 \<and>
           (epoch mod check_point params = 0 \<or> epoch = num_epochs params - 1)
        then [(epoch, checkpoint_path params, best_model s')] else [])"
    "files s' =
       (if check_point params \<noteq> 0 \<and>
           (epoch mod check_point params = 0 \<or> epoch = num_epochs params - 1)
        then (files s)(checkpoint_path params \<mapsto> best_model s') else files s)"
proof -
  let ?s1 = "s\<lparr>optimizer := scheduler_step t (optimizer s), calls := calls s @ [SchedulerStep epoch]\<rparr>"
  from assms(1) obtain s2 r2 s3 r3 where
    p1: "run_phase t params epoch Train ?s1 = (s2, r2)" and
    p2: "run_phase t params epoch Validation s2 = (s3, r3)" and
    e: "(s', r) = (case r2 of Some err \<Rightarrow> (s2, Some err)
                | None \<Rightarrow> (case r3 of Some err \<Rightarrow> (s3, Some err)
                            | None \<Rightarrow> checkpoint params epoch s3))"
    by (rule epoch_step_cases)
  note f1 = run_phase_Train [OF p1] and f2 = run_phase_Validation [OF p2]
  from f1(1) f2(1) assms(2,3) have "r2 = None" "r3 = None" by simp_all
  with e have c: "checkpoint params epoch s3 = (s', r)" by simp
  note f3 = checkpoint_frame [OF c]
  from f1(8) obtain l1 a1 where c1: "calls s2 = calls ?s1 @
        concat (map (\<lambda>b. batch_calls epoch Train) (pass_batches (train_loader params) (train_passes ?s1))) @
        (if dataset_len (train_loader params) = 0 then [] else scalar_calls Train l1 a1 epoch)"
    by blast
  from f2(5) obtain l2 a2 where c2: "calls s3 = calls s2 @
        concat (map (\<lambda>b. batch_calls epoch Validation)
          (pass_batches (validation_loader params) (validation_passes s2))) @
        (if dataset_len (validation_loader params) = 0 then []
         else scalar_calls Validation l2 a2 epoch)"
    by blast
  have sv: "saves (calls s3) = saves (calls s)"
    by (simp add: c1 c2 del: batch_calls.simps)
  show "r = (if check_point params = 0 then Some IntegerModuloByZero else None)"
    by (rule f3(6))
  show "train_passes s' = Suc (train_passes s)" using f1 f2 f3 by simp
  show "validation_passes s' = Suc (validation_passes s)" using f1 f2 f3 by simp
  show "saves (calls s') = saves (calls s) @
       (if check_point params \<noteq> 0 \<and>
           (epoch mod check_point params = 0 \<or> epoch = num_epochs params - 1)
        then [(epoch, checkpoint_path params, best_model s')] else [])"
    using f3(7) f3(2) sv by simp
  show "files s' =
       (if check_point params \<noteq> 0 \<and>
           (epoch mod check_point params = 0 \<or> epoch = num_epochs params - 1)
        then (files s)(checkpoint_path params \<mapsto> best_model s') else files s)"
    using f3(8) f3(2) f1(2) f2(2) by simp
qed

lemma checkpoint_epochs_Suc:
  "checkpoint_epochs params (Suc k) =
     checkpoint_epochs params k @
       (if int k mod check_point params = 0 \<or> int k = num_epochs params - 1 then [int k] else [])"
  by (simp add: checkpoint_epochs_def)

lemma after_epochs_nonempty:
  assumes "dataset_len (train_loader params) \<noteq> 0"
    and "dataset_len (validation_loader params) \<noteq> 0"
    and "check_point params \<noteq> 0"
  shows "snd (run_epochs t params (map int [0..<k]) s0) = None \<and>
    train_passes (after_epochs t params s0 k) = train_passes s0 + k \<and>
    validation_passes (after_epochs t params s0 k) = validation_passes s0 + k \<and>
    saves (calls (after_epochs t params s0 k)) =
      saves (calls s0) @
      map (\<lambda>e. (e, checkpoint_path params, best_model (after_epochs t params s0 (Suc (nat e)))))
        (checkpoint_epochs params k) \<and>
    files (after_epochs t params s0 k) =
      (if checkpoint_epochs params k = [] then files s0
       else (files s0)(checkpoint_path params \<mapsto>
              best_model (after_epochs t params s0 (Suc (nat (last (checkpoint_epochs params k)))))))"
proof (induction k)
  case 0
  show ?case by (simp add: checkpoint_epochs_def)
next
  case (Suc k)
  obtain s r where a: "run_epochs t params (map int [0..<k]) s0 = (s, r)"
    by (cases "run_epochs t params (map int [0..<k]) s0") auto
  with Suc have r: "r = None" and s: "after_epochs t params s0 k = s"
    by (simp_all add: after_epochs_def)
  obtain s' r' where e: "epoch_step t params (int k) s = (s', r')"
    by (cases "epoch_step t params (int k) s") auto
  note f = epoch_step_nonempty [OF e assms(1,2)]
  have s': "after_epochs t params s0 (Suc k) = s'"
    by (simp add: after_epochs_Suc a r e)
  have run: "run_epochs t params (map int [0..<Suc k]) s0 = (s', r')"
    by (simp add: run_epochs_append a r e split: option.splits)
  from f(1) assms(3) have r': "r' = None" by simp
  from Suc.IH s have ih:
    "train_passes s = train_passes s0 + k"
    "validation_passes s = validation_passes s0 + k"
    "saves (calls s) = saves (calls s0) @
      map (\<lambda>e. (e, checkpoint_path params, best_model (after_epochs t params s0 (Suc (nat e)))))
        (checkpoint_epochs params k)"
    "files s = (if checkpoint_epochs params k = [] then files s0
       else (files s0)(checkpoint_path params \<mapsto>
              best_model (after_epochs t params s0 (Suc (nat (last (checkpoint_epochs params k)))))))"
    by simp_all
  have c1: "snd (run_epochs t params (map int [0..<Suc k]) s0) = None"
    by (simp only: run r' snd_conv)
  have c2: "train_passes (after_epochs t params s0 (Suc k)) = train_passes s0 + Suc k"
    using f(2) ih(1) by (simp add: s')
  have c3: "validation_passes (after_epochs t params s0 (Suc k)) = validation_passes s0 + Suc k"
    using f(3) ih(2) by (simp add: s')
  have c4: "saves (calls (after_epochs t params s0 (Suc k))) =
      saves (calls s0) @
      map (\<lambda>e. (e, checkpoint_path params, best_model (after_epochs t params s0 (Suc (nat e)))))
        (checkpoint_epochs params (Suc k))"
    using f(4) ih(3) assms(3) by (simp add: s' checkpoint_epochs_Suc)
  have c5: "files (after_epochs t params s0 (Suc k)) =
      (if checkpoint_epochs params (Suc k) = [] then files s0
       else (files s0)(checkpoint_path params \<mapsto>
              best_model (after_epochs t params s0
                (Suc (nat (last (checkpoint_epochs params (Suc k))))))))"
  proof (cases "int k mod check_point params = 0 \<or> int k = num_epochs params - 1")
    case True
    then have "files s' = (files s)(checkpoint_path params \<mapsto> best_model s')"
      using f(5) assms(3) by simp
    moreover from True have "checkpoint_epochs params (Suc k) \<noteq> []"
      "last (checkpoint_epochs params (Suc k)) = int k"
      by (simp_all add: checkpoint_epochs_Suc)
    ultimately show ?thesis
      using ih(4) by (simp add: s')
  next
    case False
    then have "files s' = files s"
      using f(5) by simp
    moreover from False have "checkpoint_epochs params (Suc k) = checkpoint_epochs params k"
      by (simp add: checkpoint_epochs_Suc)
    ultimately show ?thesis
      using ih(4) by (simp add: s')
  qed
  from c1 c2 c3 c4 c5 show ?case by blast
qed

lemma batch_step_Validation:
  assumes "batch_step t epoch Validation b (s, l, a) = (s', l', a')"
    and "\<not> training (model s)"
  shows "state_dict (model s') = state_dict (model s)" "\<not> training (model s')"
    "a' = a + of_nat (top1_hits t (state_dict (model s)) b)"
  using assms
  by (auto simp: batch_step_def Let_def forward_def correct_eval top1_hits_def)

lemma train_batches_Validation:
  assumes "train_batches t epoch Validation bs (s, l, a) = (s', l', a')"
    and "\<not> training (model s)"
  shows "state_dict (model s') = state_dict (model s) \<and>
    a' = a + of_nat (top1_hits t (state_dict (model s)) (concat bs))"
  using assms
proof (induction bs arbitrary: s l a)
  case Nil
  then show ?case by (simp add: top1_hits_def)
next
  case (Cons b bs)
  obtain s1 l1 a1 where st: "batch_step t epoch Validation b (s, l, a) = (s1, l1, a1)"
    by (cases "batch_step t epoch Validation b (s, l, a)") auto
  note f = batch_step_Validation [OF st Cons.prems(2)]
  from Cons.prems(1) have "train_batches t epoch Validation bs (s1, l1, a1) = (s', l', a')"
    by (simp add: st)
  from Cons.IH [OF this f(2)] f(1,3) show ?case
    by (simp add: top1_hits_def)
qed

lemma run_phase_Validation_measured:
  assumes "run_phase t params epoch Validation s = (s', r)"
    and "dataset_len (validation_loader params) \<noteq> 0"
  shows "observed s' = observed s @
     [(of_nat (top1_hits t (state_dict (model s'))
         (concat (pass_batches (validation_loader params) (validation_passes s)))) /
       of_nat (dataset_len (validation_loader params)), state_dict (model s'))]"
proof -
  let ?s1 = "s\<lparr>model := (model s)\<lparr>training := False\<rparr>,
               validation_passes := Suc (validation_passes s)\<rparr>"
  let ?bs = "pass_batches (validation_loader params) (validation_passes s)"
  let ?n = "dataset_len (validation_loader params)"
  obtain s2 l a where tb: "train_batches t epoch Validation ?bs (?s1, 0, 0) = (s2, l, a)"
    by (cases "train_batches t epoch Validation ?bs (?s1, 0, 0)") auto
  note f = train_batches_frame [OF tb]
  have "\<not> training (model ?s1)" by simp
  note g = train_batches_Validation [OF tb this]
  let ?acc = "a / of_nat ?n"
  let ?s4 = "s2\<lparr>calls := calls s2 @ scalar_calls Validation (l / of_nat ?n) ?acc epoch,
                observed := observed s2 @ [(?acc, state_dict (model s2))]\<rparr>"
  from assms tb have s': "s' = (if ?acc > best_accuracy s2
                   then ?s4\<lparr>best_accuracy := ?acc, best_model := state_dict (model s2)\<rparr>
                   else ?s4)"
    by (simp add: run_phase_def Let_def split: if_splits)
  from f g s' show ?thesis by simp
qed

lemma epoch_step_measured:
  assumes "epoch_step t params epoch s = (s', r)"
    and "\<forall>ap\<in>set (observed s). measured_on t params ap"
  shows "\<forall>ap\<in>set (observed s'). measured_on t params ap"
proof -
  let ?s1 = "s\<lparr>optimizer := scheduler_step t (optimizer s), calls := calls s @ [SchedulerStep epoch]\<rparr>"
  from assms(1) obtain s2 r2 s3 r3 where
    p1: "run_phase t params epoch Train ?s1 = (s2, r2)" and
    p2: "run_phase t params epoch Validation s2 = (s3, r3)" and
    e: "(s', r) = (case r2 of Some err \<Rightarrow> (s2, Some err)
                | None \<Rightarrow> (case r3 of Some err \<Rightarrow> (s3, Some err)
                            | None \<Rightarrow> checkpoint params epoch s3))"
    by (rule epoch_step_cases)
  have o2: "observed s2 = observed s"
    using run_phase_Train(5) [OF p1] by simp
  have o3: "\<forall>ap\<in>set (observed s3). measured_on t params ap"
  proof (cases "dataset_len (validation_loader params) = 0")
    case True
    with run_phase_Validation(5) [OF p2] o2 assms(2) show ?thesis by auto
  next
    case False
    from run_phase_Validation_measured [OF p2 False] o2 assms(2) show ?thesis
      by (auto simp: measured_on_def)
  qed
  have "observed s' = observed s2 \<or> observed s' = observed s3"
  proof (cases r2)
    case (Some err)
    with e show ?thesis by simp
  next
    case None
    show ?thesis
    proof (cases r3)
      case (Some err)
      with None e show ?thesis by simp
    next
      case n3: None
      with None e have c: "checkpoint params epoch s3 = (s', r)" by simp
      from checkpoint_frame(3) [OF c] show ?thesis by simp
    qed
  qed
  with o2 o3 assms(2) show ?thesis by auto
qed

lemma run_epochs_measured:
  assumes "run_epochs t params es s = (s', r)"
    and "\<forall>ap\<in>set (observed s). measured_on t params ap"
  shows "\<forall>ap\<in>set (observed s'). measured_on t params ap"
  using assms
proof (induction es arbitrary: s)
  case Nil
  then show ?case by simp
next
  case (Cons e es)
  obtain s1 r1 where st: "epoch_step t params e s = (s1, r1)"
    by (cases "epoch_step t params e s") auto
  note m = epoch_step_measured [OF st Cons.prems(2)]
  show ?case
  proof (cases r1)
    case None
    from Cons.prems(1) have "run_epochs t params es s1 = (s', r)" by (simp add: st None)
    from Cons.IH [OF this m] show ?thesis .
  next
    case (Some err)
    from Cons.prems(1) m show ?thesis by (simp add: st Some)
  qed
qed

lemma begin_run_measured:
  assumes "begin_run t params h fs = Inr s0"
  shows "\<forall>ap\<in>set (observed s0). measured_on t params ap"
  using assms
  by (auto simp: begin_run_def test_model_eq open_run_def measured_on_def top1_hits_def
      split: if_splits)

lemma validation_accuracies_append [simp]:
  "validation_accuracies (xs @ ys) = validation_accuracies xs @ validation_accuracies ys"
  by (simp add: validation_accuracies_def)

lemma validation_accuracies_Nil [simp]: "validation_accuracies [] = []"
  by (simp add: validation_accuracies_def)

lemma validation_accuracies_Cons [simp]:
  "validation_accuracies (c # cs) = logged c @ validation_accuracies cs"
  by (simp add: validation_accuracies_def)

lemma validation_accuracies_batch_calls [simp]:
  "validation_accuracies (concat (map (\<lambda>b. batch_calls epoch ph) bs)) = []"
  by (induction bs) (cases ph; simp)+

lemma epoch_step_logged:
  assumes "epoch_step t params epoch s = (s', r)"
  shows "\<exists>as. map fst (observed s') = map fst (observed s) @ as \<and>
    validation_accuracies (calls s') = validation_accuracies (calls s) @ as"
proof -
  let ?s1 = "s\<lparr>optimizer := scheduler_step t (optimizer s), calls := calls s @ [SchedulerStep epoch]\<rparr>"
  from assms(1) obtain s2 r2 s3 r3 where
    p1: "run_phase t params epoch Train ?s1 = (s2, r2)" and
    p2: "run_phase t params epoch Validation s2 = (s3, r3)" and
    e: "(s', r) = (case r2 of Some err \<Rightarrow> (s2, Some err)
                | None \<Rightarrow> (case r3 of Some err \<Rightarrow> (s3, Some err)
                            | None \<Rightarrow> checkpoint params epoch s3))"
    by (rule epoch_step_cases)
  note f1 = run_phase_Train [OF p1] and f2 = run_phase_Validation [OF p2]
  from f1(8) obtain l1 a1 where c1: "calls s2 = calls ?s1 @
        concat (map (\<lambda>b. batch_calls epoch Train) (pass_batches (train_loader params) (train_passes ?s1))) @
        (if dataset_len (train_loader params) = 0 then [] else scalar_calls Train l1 a1 epoch)"
    by blast
  have v2: "validation_accuracies (calls s2) = validation_accuracies (calls s)"
    by (simp add: c1 del: batch_calls.simps)
  have o2: "observed s2 = observed s"
    using f1(5) by simp
  from f2(5) obtain l2 a2 where c2: "calls s3 = calls s2 @
        concat (map (\<lambda>b. batch_calls epoch Validation)
          (pass_batches (validation_loader params) (validation_passes s2))) @
        (if dataset_len (validation_loader params) = 0 then []
         else scalar_calls Validation l2 a2 epoch)"
    and o3: "if dataset_len (validation_loader params) = 0 then observed s3 = observed s2
         else observed s3 = observed s2 @ [(a2, state_dict (model s3))]"
    by (auto split: if_splits)
  let ?as = "if dataset_len (validation_loader params) = 0 then [] else [a2]"
  have v3: "validation_accuracies (calls s3) = validation_accuracies (calls s) @ ?as"
    by (simp add: c2 v2 del: batch_calls.simps)
  have m3: "map fst (observed s3) = map fst (observed s) @ ?as"
    using o3 o2 by (simp split: if_splits)
  have "(observed s' = observed s2 \<and> validation_accuracies (calls s') = validation_accuracies (calls s2)) \<or>
        (observed s' = observed s3 \<and> validation_accuracies (calls s') = validation_accuracies (calls s3))"
  proof (cases r2)
    case (Some err)
    with e show ?thesis by simp
  next
    case None
    show ?thesis
    proof (cases r3)
      case (Some err)
      with None e show ?thesis by simp
    next
      case n3: None
      with None e have c: "checkpoint params epoch s3 = (s', r)" by simp
      then have "validation_accuracies (calls s') = validation_accuracies (calls s3)"
        by (auto simp: checkpoint_def split: if_splits)
      with checkpoint_frame(3) [OF c] show ?thesis by simp
    qed
  qed
  then show ?thesis
  proof
    assume "observed s' = observed s2 \<and>
      validation_accuracies (calls s') = validation_accuracies (calls s2)"
    with o2 v2 have "map fst (observed s') = map fst (observed s) @ [] \<and>
      validation_accuracies (calls s') = validation_accuracies (calls s) @ []"
      by simp
    then show ?thesis by blast
  next
    assume "observed s' = observed s3 \<and>
      validation_accuracies (calls s') = validation_accuracies (calls s3)"
    with m3 v3 have "map fst (observed s') = map fst (observed s) @ ?as \<and>
      validation_accuracies (calls s') = validation_accuracies (calls s) @ ?as"
      by simp
    then show ?thesis by blast
  qed
qed

lemma run_epochs_logged:
  assumes "run_epochs t params es s = (s', r)"
  shows "\<exists>as. map fst (observed s') = map fst (observed s) @ as \<and>
    validation_accuracies (calls s') = validation_accuracies (calls s) @ as"
  using assms
proof (induction es arbitrary: s)
  case Nil
  then show ?case by simp
next
  case (Cons e es)
  obtain s1 r1 where st: "epoch_step t params e s = (s1, r1)"
    by (cases "epoch_step t params e s") auto
  from epoch_step_logged [OF st] obtain as where
    as: "map fst (observed s1) = map fst (observed s) @ as"
      "validation_accuracies (calls s1) = validation_accuracies (calls s) @ as"
    by blast
  show ?case
  proof (cases r1)
    case None
    from Cons.prems have "run_epochs t params es s1 = (s', r)" by (simp add: st None)
    from Cons.IH [OF this] obtain bs where
      "map fst (observed s') = map fst (observed s1) @ bs"
      "validation_accuracies (calls s') = validation_accuracies (calls s1) @ bs"
      by blast
    with as have "map fst (observed s') = map fst (observed s) @ (as @ bs) \<and>
      validation_accuracies (calls s') = validation_accuracies (calls s) @ (as @ bs)"
      by simp
    then show ?thesis by blast
  next
    case (Some err)
    from Cons.prems have "s' = s1" by (simp add: st Some)
    with as show ?thesis by blast
  qed
qed

lemma after_epochs_logged:
  assumes "begin_run t params h fs = Inr s0"
  shows "map fst (observed (after_epochs t params s0 k)) =
    best_accuracy s0 # validation_accuracies (calls (after_epochs t params s0 k))"
proof -
  obtain s r where a: "run_epochs t params (map int [0..<k]) s0 = (s, r)"
    by (cases "run_epochs t params (map int [0..<k]) s0") auto
  then have k: "after_epochs t params s0 k = s"
    by (simp add: after_epochs_def)
  from assms have c0: "validation_accuracies (calls s0) = []"
    by (auto simp: begin_run_def test_model_eq open_run_def split: if_splits)
  from run_epochs_logged [OF a] begin_run_Inr(2) [OF assms] c0 show ?thesis
    by (auto simp: k)
qed

lemma first_best_mem:
  assumes "first_best obs bm"
  shows "bm \<in> set obs" "\<forall>a\<in>set (map fst obs). a \<le> fst bm"
proof -
  from assms obtain i where i: "i < length obs" "obs ! i = bm"
    "\<forall>j<length obs. fst (obs ! j) \<le> fst bm"
    by (auto simp: first_best_def)
  from i(1,2) show "bm \<in> set obs"
    by (metis nth_mem)
  show "\<forall>a\<in>set (map fst obs). a \<le> fst bm"
  proof
    fix a assume "a \<in> set (map fst obs)"
    then obtain j where "j < length obs" "a = fst (obs ! j)"
      by (auto simp: in_set_conv_nth)
    with i(3) show "a \<le> fst bm" by simp
  qed
qed

lemma batches_run_append [simp]: "batches_run ph (xs @ ys) = batches_run ph xs + batches_run ph ys"
  by (simp add: batches_run_def)

lemma batches_run_Nil [simp]: "batches_run ph [] = 0"
  by (simp add: batches_run_def)

lemma batches_run_Cons [simp]:
  "batches_run ph (c # cs) = (if is_zero_grad ph c then 1 else 0) + batches_run ph cs"
  by (simp add: batches_run_def)

lemma batches_run_batch_calls [simp]:
  "batches_run ph (concat (map (\<lambda>b. batch_calls epoch ph') bs)) =
     (if ph' = ph then length bs else 0)"
  by (induction bs) (cases ph'; simp)+

lemma epoch_step_batches:
  assumes "epoch_step t params epoch s = (s', r)"
    and "dataset_len (train_loader params) \<noteq> 0"
    and "dataset_len (validation_loader params) \<noteq> 0"
  shows "batches_run Train (calls s') =
      batches_run Train (calls s) + length (pass_batches (train_loader params) (train_passes s))"
    "batches_run Validation (calls s') =
      batches_run Validation (calls s) +
      length (pass_batches (validation_loader params) (validation_passes s))"
proof -
  let ?s1 = "s\<lparr>optimizer := scheduler_step t (optimizer s), calls := calls s @ [SchedulerStep epoch]\<rparr>"
  from assms(1) obtain s2 r2 s3 r3 where
    p1: "run_phase t params epoch Train ?s1 = (s2, r2)" and
    p2: "run_phase t params epoch Validation s2 = (s3, r3)" and
    e: "(s', r) = (case r2 of Some err \<Rightarrow> (s2, Some err)
                | None \<Rightarrow> (case r3 of Some err \<Rightarrow> (s3, Some err)
                            | None \<Rightarrow> checkpoint params epoch s3))"
    by (rule epoch_step_cases)
  note f1 = run_phase_Train [OF p1] and f2 = run_phase_Validation [OF p2]
  from f1(1) f2(1) assms(2,3) have "r2 = None" "r3 = None" by simp_all
  with e have c: "checkpoint params epoch s3 = (s', r)" by simp
  then have c3: "batches_run ph (calls s') = batches_run ph (calls s3)" for ph
    by (auto simp: checkpoint_def split: if_splits)
  from f1(8) obtain l1 a1 where c1: "calls s2 = calls ?s1 @
        concat (map (\<lambda>b. batch_calls epoch Train) (pass_batches (train_loader params) (train_passes ?s1))) @
        (if dataset_len (train_loader params) = 0 then [] else scalar_calls Train l1 a1 epoch)"
    by blast
  from f2(5) obtain l2 a2 where c2: "calls s3 = calls s2 @
        concat (map (\<lambda>b. batch_calls epoch Validation)
          (pass_batches (validation_loader params) (validation_passes s2))) @
        (if dataset_len (validation_loader params) = 0 then []
         else scalar_calls Validation l2 a2 epoch)"
    by blast
  have v: "validation_passes s2 = validation_passes s"
    using f1(7) by simp
  show "batches_run Train (calls s') =
      batches_run Train (calls s) + length (pass_batches (train_loader params) (train_passes s))"
    by (simp add: c3 c2 c1 del: batch_calls.simps)
  show "batches_run Validation (calls s') =
      batches_run Validation (calls s) +
      length (pass_batches (validation_loader params) (validation_passes s))"
    by (simp add: c3 c2 c1 v del: batch_calls.simps)
qed

lemma after_epochs_batches:
  assumes "dataset_len (train_loader params) \<noteq> 0"
    and "dataset_len (validation_loader params) \<noteq> 0"
    and "check_point params \<noteq> 0"
  shows "batches_run Train (calls (after_epochs t params s0 k)) =
      batches_run Train (calls s0) +
      (\<Sum>i<k. length (pass_batches (train_loader params) (train_passes s0 + i))) \<and>
    batches_run Validation (calls (after_epochs t params s0 k)) =
      batches_run Validation (calls s0) +
      (\<Sum>i<k. length (pass_batches (validation_loader params) (validation_passes s0 + i)))"
proof (induction k)
  case 0
  show ?case by simp
next
  case (Suc k)
  note a = after_epochs_nonempty [OF assms, of t k s0]
  obtain s r where run: "run_epochs t params (map int [0..<k]) s0 = (s, r)"
    by (cases "run_epochs t params (map int [0..<k]) s0") auto
  with a have r: "r = None" and s: "after_epochs t params s0 k = s"
    by (simp_all add: after_epochs_def)
  obtain s' r' where e: "epoch_step t params (int k) s = (s', r')"
    by (cases "epoch_step t params (int k) s") auto
  have s': "after_epochs t params s0 (Suc k) = s'"
    by (simp add: after_epochs_Suc run r e)
  from a s have p: "train_passes s = train_passes s0 + k"
    "validation_passes s = validation_passes s0 + k"
    by simp_all
  from epoch_step_batches [OF e assms(1,2)] Suc.IH show ?case
    by (simp add: s s' p)
qed

lemma batch_calls_if:
  "batch_calls epoch ph =
     (if ph = Train then [ZeroGrad epoch Train, Backward epoch Train, OptimizerStep epoch Train]
      else [ZeroGrad epoch Validation])"
  by (cases ph) simp_all

lemma range_py_nonpos [simp]: "n \<le> 0 \<Longrightarrow> range_py n = []"
  by (simp add: range_py_def)

lemma range_py_pos: "1 \<le> n \<Longrightarrow> range_py n = 0 # map int [1..<nat n]"
  by (simp add: range_py_def upt_rec [of 0])

lemma checkpoint_epochs_last:
  assumes "1 \<le> num_epochs params"
  shows "checkpoint_epochs params (nat (num_epochs params)) \<noteq> []"
    "last (checkpoint_epochs params (nat (num_epochs params))) = num_epochs params - 1"
proof -
  from assms obtain k where k: "nat (num_epochs params) = Suc k"
    by (cases "nat (num_epochs params)") auto
  with assms have "int k = num_epochs params - 1" by linarith
  then show "checkpoint_epochs params (nat (num_epochs params)) \<noteq> []"
    "last (checkpoint_epochs params (nat (num_epochs params))) = num_epochs params - 1"
    by (simp_all add: k checkpoint_epochs_Suc)
qed

lemma epoch_step_interval_0:
  assumes "epoch_step t params epoch s = (s', r)"
    and "dataset_len (train_loader params) \<noteq> 0"
    and "dataset_len (validation_loader params) \<noteq> 0"
    and "check_point params = 0"
  shows "\<exists>acc. last (calls s') = AddScalars ''Accuracy'' Validation acc epoch"
proof -
  let ?s1 = "s\<lparr>optimizer := scheduler_step t (optimizer s), calls := calls s @ [SchedulerStep epoch]\<rparr>"
  from assms(1) obtain s2 r2 s3 r3 where
    p1: "run_phase t params epoch Train ?s1 = (s2, r2)" and
    p2: "run_phase t params epoch Validation s2 = (s3, r3)" and
    e: "(s', r) = (case r2 of Some err \<Rightarrow> (s2, Some err)
                | None \<Rightarrow> (case r3 of Some err \<Rightarrow> (s3, Some err)
                            | None \<Rightarrow> checkpoint params epoch s3))"
    by (rule epoch_step_cases)
  note f1 = run_phase_Train [OF p1] and f2 = run_phase_Validation [OF p2]
  from f1(1) f2(1) assms(2,3) have "r2 = None" "r3 = None" by simp_all
  with e assms(4) have s': "s' = s3" by (simp add: checkpoint_def)
  from f2(5) assms(3) obtain l2 a2 where "calls s3 = calls s2 @
        concat (map (\<lambda>b. batch_calls epoch Validation)
          (pass_batches (validation_loader params) (validation_passes s2))) @
        scalar_calls Validation l2 a2 epoch"
    by auto
  then have "last (calls s3) = AddScalars ''Accuracy'' Validation a2 epoch"
    by simp
  with s' show ?thesis by blast
qed

section \<open>Properties of \<open>train_model\<close>\<close>

lemma begin_run_nonempty:
  assumes "dataset_len (validation_loader params) \<noteq> 0"
  obtains s0 where "begin_run t params h fs = Inr s0"
    "train_passes s0 = train_passes h" "validation_passes s0 = Suc (validation_passes h)"
    "files s0 = fs" "calls s0 = [SummaryWriter (''runs/'' @ description params)]"
  using assms by (simp add: begin_run_def test_model_eq open_run_def)

lemma begin_run_empty:
  assumes "dataset_len (validation_loader params) = 0"
  obtains w where "begin_run t params h fs = Inl (w, FloatDivisionByZero)"
    "train_passes w = train_passes h" "validation_passes w = Suc (validation_passes h)"
    "files w = fs" "calls w = [SummaryWriter (''runs/'' @ description params)]"
  using assms by (simp add: begin_run_def test_model_eq open_run_def)

lemma world_of_simps [simp]:
  "model (world_of s) = model s" "train_passes (world_of s) = train_passes s"
  "validation_passes (world_of s) = validation_passes s" "files (world_of s) = files s"
  "calls (world_of s) = calls s"
  by (simp_all add: world_of_def)

lemma train_model_after_loop:
  assumes "begin_run t params h fs = Inr s0"
    and "run_epochs t params (range_py (num_epochs params)) s0 = (s1, r)"
    and "dataset_len (validation_loader params) \<noteq> 0"
  shows "snd (train_model t params h fs) = r"
    "train_passes (fst (train_model t params h fs)) = train_passes s1"
    "validation_passes (fst (train_model t params h fs)) =
       (if r = None then Suc (validation_passes s1) else validation_passes s1)"
    "files (fst (train_model t params h fs)) = files s1"
    "saves (calls (fst (train_model t params h fs))) = saves (calls s1)"
    "filter is_optimizer_step (calls (fst (train_model t params h fs))) =
       filter is_optimizer_step (calls s1)"
  using assms
  by (cases r; simp add: train_model_def test_model_eq)+

lemma train_model_after_loop_batches:
  assumes "begin_run t params h fs = Inr s0"
    and "run_epochs t params (range_py (num_epochs params)) s0 = (s1, r)"
    and "dataset_len (validation_loader params) \<noteq> 0"
  shows "batches_run ph (calls (fst (train_model t params h fs))) = batches_run ph (calls s1)"
  using assms
  by (cases r; simp add: train_model_def test_model_eq)

section \<open>The instance, evaluated\<close>

lemma demo_begin: "begin_run demo_torch (demo_params n c) demo_heap Map.empty = Inr demo_start"
  by (simp add: demo_defs run_defs)

lemma demo_after_2:
  "observed (after_epochs demo_torch (demo_params 2 5) demo_start 2) = [(1 / 4, 0), (3 / 4, 1), (0, 2)]"
  "best_accuracy (after_epochs demo_torch (demo_params 2 5) demo_start 2) = 3 / 4"
  "best_model (after_epochs demo_torch (demo_params 2 5) demo_start 2) = 1"
  by (simp_all add: demo_defs run_defs Let_def upt_rec eval_nat_numeral)

lemma demo_train_1:
  "train_model demo_torch (demo_params 1 1) demo_heap Map.empty =
     (\<lparr>model = \<lparr>state_dict = 1, grad = 0, training = False, on_device = ''cpu''\<rparr>,
       train_passes = 1, validation_passes = 3,
       files = [''trained_models/densenet161.pt'' \<mapsto> 1],
       calls = [SummaryWriter ''runs/densenet161'', SchedulerStep 0, ZeroGrad 0 Train,
         Backward 0 Train, OptimizerStep 0 Train, AddScalars ''Loss'' Train 1 0,
         AddScalars ''Accuracy'' Train (1 / 2) 0, ZeroGrad 0 Validation, ZeroGrad 0 Validation,
         AddScalars ''Loss'' Validation 1 0, AddScalars ''Accuracy'' Validation (3 / 4) 0,
         Save 0 ''trained_models/densenet161.pt'' 1,
         AddText ''Final_Accuracy'' (3 / 4) 0, WriterClose]\<rparr>, None)"
  by (simp add: demo_defs run_defs Let_def upt_rec eval_nat_numeral)

lemma demo_train_0:
  "train_model demo_torch (demo_params 0 c) demo_heap Map.empty =
     (\<lparr>model = \<lparr>state_dict = 0, grad = 0, training = False, on_device = ''cpu''\<rparr>,
       train_passes = 0, validation_passes = 2,
       files = Map.empty,
       calls = [SummaryWriter ''runs/densenet161'',
         AddText ''Final_Accuracy'' (1 / 4) 0, WriterClose]\<rparr>, None)"
  by (simp add: demo_defs run_defs Let_def)

lemma demo_train_2:
  "train_model demo_torch (demo_params 2 5) demo_heap Map.empty =
     (\<lparr>model = \<lparr>state_dict = 2, grad = 0, training = False, on_device = ''cpu''\<rparr>,
       train_passes = 2, validation_passes = 4,
       files = [''trained_models/densenet161.pt'' \<mapsto> 1],
       calls = [SummaryWriter ''runs/densenet161'', SchedulerStep 0, ZeroGrad 0 Train,
         Backward 0 Train, OptimizerStep 0 Train, AddScalars ''Loss'' Train 1 0,
         AddScalars ''Accuracy'' Train (1 / 2) 0, ZeroGrad 0 Validation, ZeroGrad 0 Validation,
         AddScalars ''Loss'' Validation 1 0, AddScalars ''Accuracy'' Validation (3 / 4) 0,
         Save 0 ''trained_models/densenet161.pt'' 1, SchedulerStep 1,
         ZeroGrad 1 Train, Backward 1 Train, OptimizerStep 1 Train,
         AddScalars ''Loss'' Train 1 1, AddScalars ''Accuracy'' Train (1 / 2) 1,
         ZeroGrad 1 Validation, ZeroGrad 1 Validation,
         AddScalars ''Loss'' Validation 1 1, AddScalars ''Accuracy'' Validation 0 1,
         Save 1 ''trained_models/densenet161.pt'' 1,
         AddText ''Final_Accuracy'' 0 0, WriterClose]\<rparr>, None)"
  by (simp add: demo_defs run_defs Let_def upt_rec eval_nat_numeral)

lemma demo_train_interval_0:
  "train_model demo_torch (demo_params 2 0) demo_heap Map.empty =
     (\<lparr>model = \<lparr>state_dict = 1, grad = 0, training = False, on_device = ''cpu''\<rparr>,
       train_passes = 1, validation_passes = 2,
       files = Map.empty,
       calls = [SummaryWriter ''runs/densenet161'', SchedulerStep 0, ZeroGrad 0 Train,
         Backward 0 Train, OptimizerStep 0 Train, AddScalars ''Loss'' Train 1 0,
         AddScalars ''Accuracy'' Train (1 / 2) 0, ZeroGrad 0 Validation, ZeroGrad 0 Validation,
         AddScalars ''Loss'' Validation 1 0, AddScalars ''Accuracy'' Validation (3 / 4) 0]\<rparr>,
      Some IntegerModuloByZero)"
  by (simp add: demo_defs run_defs Let_def upt_rec eval_nat_numeral)

section \<open>The claims about \<open>test_model\<close>\<close>

text \<open>
  C5. For a validation feed whose batches together enumerate each of the \<open>N\<close> items of
  the dataset exactly once (the concatenation of the batches is a permutation of the
  items) and a model that classifies exactly \<open>k\<close> of them correctly, \<open>test_model\<close>
  returns \<open>k / N\<close>; the quotient needs \<open>N > 0\<close>. In particular, for one batch of four
  images with labels 0, 0, 1, 1 and a model that predicts class 0 for every image, it
  returns \<open>1 / 2\<close>.
\<close>

theorem test_model_accuracy:
  "(\<forall>items k.
      0 < dataset_len (validation_loader params) \<and>
      mset (concat (pass_batches (validation_loader params) (validation_passes h))) = mset items \<and>
      length items = dataset_len (validation_loader params) \<and>
      top1_hits t (state_dict (model h)) items = k \<longrightarrow>
      snd (test_model t params h) = Inr (of_nat k / of_nat (length items))) \<and>
   (\<forall>x1 x2 x3 x4.
      (\<forall>x. top1 t (forward_eval t (state_dict (model h)) x) = 0) \<and>
      pass_batches (validation_loader params) (validation_passes h) =
        [[(x1, 0), (x2, 0), (x3, 1), (x4, 1)]] \<and>
      dataset_len (validation_loader params) = 4 \<longrightarrow>
      snd (test_model t params h) = Inr (1 / 2))"
proof (intro conjI allI impI)
  fix items k
  assume a: "0 < dataset_len (validation_loader params) \<and>
      mset (concat (pass_batches (validation_loader params) (validation_passes h))) = mset items \<and>
      length items = dataset_len (validation_loader params) \<and>
      top1_hits t (state_dict (model h)) items = k"
  then have "length (filter (\<lambda>(x, l). top1 t (forward_eval t (state_dict (model h)) x) = l)
               (concat (pass_batches (validation_loader params) (validation_passes h)))) = k"
    using count_mset [of "concat (pass_batches (validation_loader params) (validation_passes h))" items]
    by (simp add: top1_hits_def)
  with a show "snd (test_model t params h) = Inr (of_nat k / of_nat (length items))"
    by (simp add: test_model_eq)
next
  fix x1 x2 x3 x4 :: 'a
  assume "(\<forall>x. top1 t (forward_eval t (state_dict (model h)) x) = 0) \<and>
      pass_batches (validation_loader params) (validation_passes h) =
        [[(x1, 0), (x2, 0), (x3, 1), (x4, 1)]] \<and>
      dataset_len (validation_loader params) = 4"
  then show "snd (test_model t params h) = Inr (1 / 2)"
    by (simp add: test_model_eq)
qed

theorem test_model_accuracy_witness:
  "top1_hits demo_torch 0 [(0, 0), (1, 0), (2, 1), (3, 1)] = 2 \<and>
   dataset_len (validation_loader scenario_params) = 4 \<and>
   snd (test_model demo_torch scenario_params demo_heap) = Inr (of_nat 2 / of_nat 4) \<and>
   snd (test_model demo_torch scenario_params demo_heap) = Inr (1 / 2)"
proof -
  have hits: "top1_hits demo_torch 0 [(0, 0), (1, 0), (2, 1), (3, 1)] = 2"
    by (simp add: top1_hits_def demo_torch_def)
  have len: "dataset_len (validation_loader scenario_params) = 4"
    by (simp add: scenario_params_def demo_loader_def)
  have general: "0 < dataset_len (validation_loader scenario_params) \<and>
      mset (concat (pass_batches (validation_loader scenario_params) (validation_passes demo_heap))) =
        mset [(0, 0), (1, 0), (2, 1), (3, 1)] \<and>
      length [(0::nat, 0::nat), (1, 0), (2, 1), (3, 1)] = dataset_len (validation_loader scenario_params) \<and>
      top1_hits demo_torch (state_dict (model demo_heap)) [(0, 0), (1, 0), (2, 1), (3, 1)] = 2"
    using hits by (simp add: scenario_params_def demo_loader_def demo_heap_def)
  have scenario: "(\<forall>x. top1 demo_torch (forward_eval demo_torch (state_dict (model demo_heap)) x) = 0) \<and>
      pass_batches (validation_loader scenario_params) (validation_passes demo_heap) =
        [[(0, 0), (1, 0), (2, 1), (3, 1)]] \<and>
      dataset_len (validation_loader scenario_params) = 4"
    by (simp add: scenario_params_def demo_loader_def demo_heap_def demo_torch_def)
  note both = test_model_accuracy [of scenario_params demo_heap demo_torch]
  from both [THEN conjunct1, rule_format, OF general]
  have g: "snd (test_model demo_torch scenario_params demo_heap) = Inr (of_nat 2 / of_nat 4)"
    by simp
  from both [THEN conjunct2, rule_format, OF scenario]
  have "snd (test_model demo_torch scenario_params demo_heap) = Inr (1 / 2)" .
  with hits len g show ?thesis by simp
qed

text \<open>
  C7, as the code has it. \<open>test_model\<close> leaves the state dict and the accumulated
  gradients of the model as they were. It clears the mode flag of the caller's model
  and moves it to \<open>params['device']\<close>, and it starts one pass over the validation
  loader; so the model is as before the call exactly when it was in evaluation mode on
  that device already.
\<close>

theorem test_model_frame:
  "fst (test_model t params h) =
     h\<lparr>model := (model h)\<lparr>on_device := device params, training := False\<rparr>,
       validation_passes := Suc (validation_passes h)\<rparr> \<and>
   state_dict (model (fst (test_model t params h))) = state_dict (model h) \<and>
   grad (model (fst (test_model t params h))) = grad (model h) \<and>
   (model (fst (test_model t params h)) = model h) =
     (\<not> training (model h) \<and> on_device (model h) = device params)"
proof -
  have "(model h)\<lparr>on_device := device params, training := False\<rparr> = model h
          \<longleftrightarrow> \<not> training (model h) \<and> on_device (model h) = device params"
    by (cases "model h") auto
  then show ?thesis
    by (simp add: test_model_eq)
qed

text \<open>
  C7 as stated fails: a model in training mode (as a freshly built one is) is in
  evaluation mode after the call.
\<close>

theorem test_model_clears_training_mode:
  "training (model demo_heap) \<and>
   \<not> training (model (fst (test_model demo_torch (demo_params 0 1) demo_heap)))"
  by (simp add: test_model_eq demo_heap_def)

text \<open>
  C8. When the validation feed yields at the next pass the batches it yielded at this
  one (a deterministic feed without augmentation), a second call of \<open>test_model\<close>, on
  the heap the first call left, returns what the first call returned.
\<close>

theorem test_model_twice:
  "pass_batches (validation_loader params) (Suc (validation_passes h)) =
     pass_batches (validation_loader params) (validation_passes h) \<Longrightarrow>
   snd (test_model t params (fst (test_model t params h))) = snd (test_model t params h)"
  by (simp add: test_model_eq)

theorem test_model_twice_witness:
  "pass_batches (validation_loader (demo_params 0 1)) (Suc (validation_passes demo_heap)) =
     pass_batches (validation_loader (demo_params 0 1)) (validation_passes demo_heap) \<and>
   snd (test_model demo_torch (demo_params 0 1) (fst (test_model demo_torch (demo_params 0 1) demo_heap))) =
     Inr (1 / 4) \<and>
   snd (test_model demo_torch (demo_params 0 1) demo_heap) = Inr (1 / 4)"
proof -
  have d: "pass_batches (validation_loader (demo_params 0 1)) (Suc (validation_passes demo_heap)) =
     pass_batches (validation_loader (demo_params 0 1)) (validation_passes demo_heap)"
    by (simp add: demo_params_def demo_loader_def)
  have v: "snd (test_model demo_torch (demo_params 0 1) demo_heap) = Inr (1 / 4)"
    by (simp add: test_model_def demo_params_def demo_loader_def demo_heap_def demo_torch_def
        forward_def correct_def)
  from test_model_twice [OF d, of demo_torch] d v show ?thesis by simp
qed

section \<open>The claims about the best accuracy and the best weights\<close>

text \<open>
  C2. Within a run of \<open>train_model\<close> whose baseline evaluation returned, the value of
  \<open>best_accuracy\<close> starts as the accuracy \<open>test_model\<close> returned and never decreases
  from one epoch to a later one.
\<close>

theorem best_accuracy_monotone:
  assumes "begin_run t params h fs = Inr s0" and "i \<le> j"
  shows "snd (test_model t params (open_run params h fs)) =
           Inr (best_accuracy (after_epochs t params s0 0)) \<and>
         best_accuracy (after_epochs t params s0 i) \<le> best_accuracy (after_epochs t params s0 j)"
proof -
  from after_epochs_le [OF assms(2)] obtain es r where
    "run_epochs t params es (after_epochs t params s0 i) = (after_epochs t params s0 j, r)"
    by blast
  from run_epochs_best [OF this] begin_run_Inr(1) [OF assms(1)] show ?thesis
    by simp
qed

theorem best_accuracy_monotone_witness:
  "begin_run demo_torch (demo_params 2 5) demo_heap Map.empty = Inr demo_start \<and>
   snd (test_model demo_torch (demo_params 2 5) (open_run (demo_params 2 5) demo_heap Map.empty)) =
     Inr (1 / 4) \<and>
   best_accuracy (after_epochs demo_torch (demo_params 2 5) demo_start 0) = 1 / 4 \<and>
   best_accuracy (after_epochs demo_torch (demo_params 2 5) demo_start 2) = 3 / 4 \<and>
   best_accuracy (after_epochs demo_torch (demo_params 2 5) demo_start 0) \<le>
     best_accuracy (after_epochs demo_torch (demo_params 2 5) demo_start 2)"
proof -
  have le: "(0::nat) \<le> 2" by simp
  have zero: "best_accuracy (after_epochs demo_torch (demo_params 2 5) demo_start 0) = 1 / 4"
    by (simp add: demo_start_def)
  have b: "begin_run demo_torch (demo_params 2 5) demo_heap Map.empty = Inr demo_start"
    by (rule demo_begin)
  from best_accuracy_monotone [OF b le] zero b demo_after_2(2)
  show ?thesis by simp
qed

text \<open>
  C3. After any number of epochs of a run, \<open>best_model\<close> is a state dict whose
  accuracy on a pass of the validation feed is \<open>best_accuracy\<close>, and \<open>best_accuracy\<close>
  is at least the baseline and every validation accuracy written to the summary writer
  so far. With the measurements kept in order (the baseline first, then one for each
  validation phase, each with the state dict of the model at the measurement; their
  accuracies are the baseline and the values written to the summary writer), the pair
  of \<open>best_accuracy\<close> and \<open>best_model\<close> is the earliest measurement that has the
  highest accuracy. From one epoch to the next, either the best accuracy is strictly
  higher or the snapshot is the one kept before.
\<close>

theorem best_model_is_first_best:
  assumes "begin_run t params h fs = Inr s0"
  shows "measured_on t params
           (best_accuracy (after_epochs t params s0 k), best_model (after_epochs t params s0 k)) \<and>
         best_accuracy s0 \<le> best_accuracy (after_epochs t params s0 k) \<and>
         (\<forall>a\<in>set (validation_accuracies (calls (after_epochs t params s0 k))).
            a \<le> best_accuracy (after_epochs t params s0 k)) \<and>
         first_best (observed (after_epochs t params s0 k))
           (best_accuracy (after_epochs t params s0 k), best_model (after_epochs t params s0 k)) \<and>
         map fst (observed (after_epochs t params s0 k)) =
           best_accuracy s0 # validation_accuracies (calls (after_epochs t params s0 k)) \<and>
         (\<forall>ap\<in>set (observed (after_epochs t params s0 k)). measured_on t params ap) \<and>
         (best_accuracy (after_epochs t params s0 k) < best_accuracy (after_epochs t params s0 (Suc k)) \<or>
          best_accuracy (after_epochs t params s0 (Suc k)) = best_accuracy (after_epochs t params s0 k) \<and>
          best_model (after_epochs t params s0 (Suc k)) = best_model (after_epochs t params s0 k))"
proof -
  have init: "first_best (observed s0) (best_accuracy s0, best_model s0)"
    using begin_run_Inr(2) [OF assms] by (simp add: first_best_single)
  obtain s r where a: "run_epochs t params (map int [0..<k]) s0 = (s, r)"
    by (cases "run_epochs t params (map int [0..<k]) s0") auto
  then have k: "after_epochs t params s0 k = s"
    by (simp add: after_epochs_def)
  from run_epochs_best [OF a] init
  have inv: "first_best (observed s) (best_accuracy s, best_model s)" by simp
  have meas: "\<forall>ap\<in>set (observed s). measured_on t params ap"
    using run_epochs_measured [OF a begin_run_measured [OF assms]] .
  have logged: "map fst (observed s) = best_accuracy s0 # validation_accuracies (calls s)"
    using after_epochs_logged [OF assms, of k] by (simp add: k)
  note mem = first_best_mem [OF inv]
  from mem(1) meas have best: "measured_on t params (best_accuracy s, best_model s)"
    by blast
  from mem(2) logged have high: "best_accuracy s0 \<le> best_accuracy s"
    "\<forall>a\<in>set (validation_accuracies (calls s)). a \<le> best_accuracy s"
    by simp_all
  have step: "best_accuracy s < best_accuracy (after_epochs t params s0 (Suc k)) \<or>
          best_accuracy (after_epochs t params s0 (Suc k)) = best_accuracy s \<and>
          best_model (after_epochs t params s0 (Suc k)) = best_model s"
  proof (cases r)
    case None
    obtain s' r' where e: "epoch_step t params (int k) s = (s', r')"
      by (cases "epoch_step t params (int k) s") auto
    then have "after_epochs t params s0 (Suc k) = s'"
      by (simp add: after_epochs_Suc a None)
    with epoch_step_best(2) [OF e] show ?thesis by simp
  next
    case (Some err)
    then have "after_epochs t params s0 (Suc k) = s"
      by (simp add: after_epochs_Suc a)
    then show ?thesis by simp
  qed
  from best high inv logged meas step show ?thesis
    unfolding k by blast
qed

theorem best_model_is_first_best_witness:
  "begin_run demo_torch (demo_params 2 5) demo_heap Map.empty = Inr demo_start \<and>
   observed (after_epochs demo_torch (demo_params 2 5) demo_start 2) =
     [(1 / 4, 0), (3 / 4, 1), (0, 2)] \<and>
   best_accuracy (after_epochs demo_torch (demo_params 2 5) demo_start 2) = 3 / 4 \<and>
   best_model (after_epochs demo_torch (demo_params 2 5) demo_start 2) = 1 \<and>
   first_best [(1 / 4, 0), (3 / 4, 1), (0, 2)] (3 / 4, 1 :: nat) \<and>
   measured_on demo_torch (demo_params 2 5) (3 / 4, 1) \<and>
   validation_accuracies (calls (after_epochs demo_torch (demo_params 2 5) demo_start 2)) =
     [3 / 4, 0]"
proof -
  have b: "begin_run demo_torch (demo_params 2 5) demo_heap Map.empty = Inr demo_start"
    by (rule demo_begin)
  have z: "best_accuracy demo_start = 1 / 4"
    by (simp add: demo_start_def)
  from best_model_is_first_best [OF b, of 2] b demo_after_2 z
  show ?thesis by simp
qed

section \<open>The claims about the batch loop and the epoch loop\<close>

text \<open>
  C6, as the code has it. In the batch loop of \<open>train_model\<close> the gradients are
  cleared before the forward pass for every batch of both phases: a validation batch
  issues the one call \<open>optimizer.zero_grad()\<close>, a training batch issues it followed by
  \<open>loss.backward()\<close> and \<open>optimizer.step()\<close>. Backpropagation and the optimizer
  step are the calls made in training mode only.
\<close>

theorem batch_loop_calls:
  "calls (fst (train_batches t epoch ph bs (s, loss_sum, acc_sum))) =
     calls s @
     concat (map (\<lambda>b. if ph = Train
                        then [ZeroGrad epoch Train, Backward epoch Train, OptimizerStep epoch Train]
                        else [ZeroGrad epoch Validation]) bs)"
proof -
  obtain s' l' a' where tb: "train_batches t epoch ph bs (s, loss_sum, acc_sum) = (s', l', a')"
    by (cases "train_batches t epoch ph bs (s, loss_sum, acc_sum)") auto
  from train_batches_frame [OF tb] show ?thesis
    by (simp add: tb batch_calls_if del: batch_calls.simps)
qed

theorem batch_loop_calls_witness:
  "calls (fst (train_batches demo_torch 0 Validation [[(0, 0), (1, 1)], [(2, 1), (3, 1)]]
            (demo_start, 0, 0))) =
     [SummaryWriter ''runs/densenet161'', ZeroGrad 0 Validation, ZeroGrad 0 Validation]"
  using batch_loop_calls [of demo_torch 0 Validation "[[(0, 0), (1, 1)], [(2, 1), (3, 1)]]"
      demo_start 0 0]
  by (simp add: demo_start_def)

text \<open>
  C6 as stated fails: in a run of one epoch over a validation feed of two batches, two
  gradient-clearing calls are issued in the validation phase.
\<close>

theorem validation_batches_clear_gradients:
  "filter (is_zero_grad Validation)
     (calls (fst (train_model demo_torch (demo_params 1 1) demo_heap Map.empty))) =
     [ZeroGrad 0 Validation, ZeroGrad 0 Validation]"
  by (simp add: demo_train_1)

text \<open>
  C1, as the code has it. With epoch count 0 the loop body never runs: \<open>train_model\<close>
  writes no checkpoint and no file, performs no optimizer step and no pass over the
  training feed. On a non-empty validation dataset it performs the baseline and the
  final evaluation over the validation feed and returns; on an empty one the baseline
  evaluation raises.
\<close>

theorem train_model_zero_epochs:
  assumes "num_epochs params = 0"
  shows "saves (calls (fst (train_model t params h fs))) = [] \<and>
    files (fst (train_model t params h fs)) = fs \<and>
    filter is_optimizer_step (calls (fst (train_model t params h fs))) = [] \<and>
    train_passes (fst (train_model t params h fs)) = train_passes h \<and>
    (if dataset_len (validation_loader params) = 0
     then snd (train_model t params h fs) = Some FloatDivisionByZero \<and>
       validation_passes (fst (train_model t params h fs)) = validation_passes h + 1
     else snd (train_model t params h fs) = None \<and>
       validation_passes (fst (train_model t params h fs)) = validation_passes h + 2)"
proof (cases "dataset_len (validation_loader params) = 0")
  case True
  then obtain w where "begin_run t params h fs = Inl (w, FloatDivisionByZero)"
    "train_passes w = train_passes h" "validation_passes w = Suc (validation_passes h)"
    "files w = fs" "calls w = [SummaryWriter (''runs/'' @ description params)]"
    by (rule begin_run_empty)
  with True show ?thesis
    by (simp add: train_model_def)
next
  case False
  then obtain s0 where b: "begin_run t params h fs = Inr s0"
    "train_passes s0 = train_passes h" "validation_passes s0 = Suc (validation_passes h)"
    "files s0 = fs" "calls s0 = [SummaryWriter (''runs/'' @ description params)]"
    by (rule begin_run_nonempty)
  from assms have "run_epochs t params (range_py (num_epochs params)) s0 = (s0, None)"
    by simp
  from train_model_after_loop [OF b(1) this False] b(2-5) False show ?thesis
    by simp
qed

theorem train_model_zero_epochs_witness:
  "num_epochs (demo_params 0 1) = 0 \<and>
   saves (calls (fst (train_model demo_torch (demo_params 0 1) demo_heap Map.empty))) = [] \<and>
   files (fst (train_model demo_torch (demo_params 0 1) demo_heap Map.empty)) = Map.empty \<and>
   filter is_optimizer_step
     (calls (fst (train_model demo_torch (demo_params 0 1) demo_heap Map.empty))) = [] \<and>
   snd (train_model demo_torch (demo_params 0 1) demo_heap Map.empty) = None \<and>
   validation_passes (fst (train_model demo_torch (demo_params 0 1) demo_heap Map.empty)) = 2"
proof -
  have z: "num_epochs (demo_params 0 1) = 0"
    by (simp add: demo_params_def)
  have n: "dataset_len (validation_loader (demo_params 0 1)) \<noteq> 0" "validation_passes demo_heap = 0"
    by (simp_all add: demo_params_def demo_loader_def demo_heap_def)
  from train_model_zero_epochs [OF z, of demo_torch demo_heap Map.empty] z n show ?thesis
    by simp
qed

text \<open>
  C1 as stated fails: a run with epoch count 0 returns, and it has written no
  checkpoint; the file of the run does not exist.
\<close>

theorem zero_epochs_write_no_checkpoint:
  "num_epochs (demo_params 0 1) = 0 \<and>
   snd (train_model demo_torch (demo_params 0 1) demo_heap Map.empty) = None \<and>
   saves (calls (fst (train_model demo_torch (demo_params 0 1) demo_heap Map.empty))) = [] \<and>
   files (fst (train_model demo_torch (demo_params 0 1) demo_heap Map.empty))
     (checkpoint_path (demo_params 0 1)) = None"
  by (simp add: demo_train_0) (simp add: demo_params_def)

text \<open>
  C9, as the code has it. A run that completes (a non-empty validation dataset and,
  when there is an epoch to run, a non-empty training dataset and a checkpoint
  interval other than 0) with epoch count \<open>E \<ge> 0\<close> performs exactly \<open>E\<close> passes over
  the training feed and exactly \<open>E + 2\<close> passes over the validation feed: one in each
  epoch, and those of the two calls of \<open>test_model\<close>, before the first epoch and
  after the last. The passes of the epochs are full: the batch loop goes through as
  many batches as these passes of the two feeds have.
\<close>

theorem train_model_passes:
  assumes "0 \<le> num_epochs params"
    and "dataset_len (validation_loader params) \<noteq> 0"
    and "num_epochs params = 0 \<or>
         dataset_len (train_loader params) \<noteq> 0 \<and> check_point params \<noteq> 0"
  shows "snd (train_model t params h fs) = None \<and>
    train_passes (fst (train_model t params h fs)) = train_passes h + nat (num_epochs params) \<and>
    validation_passes (fst (train_model t params h fs)) =
      validation_passes h + nat (num_epochs params) + 2 \<and>
    batches_run Train (calls (fst (train_model t params h fs))) =
      (\<Sum>i<nat (num_epochs params).
         length (pass_batches (train_loader params) (train_passes h + i))) \<and>
    batches_run Validation (calls (fst (train_model t params h fs))) =
      (\<Sum>i<nat (num_epochs params).
         length (pass_batches (validation_loader params) (validation_passes h + 1 + i)))"
proof -
  from assms(2) obtain s0 where b: "begin_run t params h fs = Inr s0"
    "train_passes s0 = train_passes h" "validation_passes s0 = Suc (validation_passes h)"
    "files s0 = fs" "calls s0 = [SummaryWriter (''runs/'' @ description params)]"
    by (rule begin_run_nonempty)
  let ?k = "nat (num_epochs params)"
  obtain s1 r where run: "run_epochs t params (range_py (num_epochs params)) s0 = (s1, r)"
    by (cases "run_epochs t params (range_py (num_epochs params)) s0") auto
  then have s1: "after_epochs t params s0 ?k = s1"
    by (simp add: after_epochs_def range_py_def)
  have "r = None \<and> train_passes s1 = train_passes s0 + ?k \<and>
        validation_passes s1 = validation_passes s0 + ?k \<and>
        batches_run Train (calls s1) =
          (\<Sum>i<?k. length (pass_batches (train_loader params) (train_passes s0 + i))) \<and>
        batches_run Validation (calls s1) =
          (\<Sum>i<?k. length (pass_batches (validation_loader params) (validation_passes s0 + i)))"
  proof (cases "num_epochs params = 0")
    case True
    with run b(5) show ?thesis by simp
  next
    case False
    with assms(3) have ne: "dataset_len (train_loader params) \<noteq> 0" "check_point params \<noteq> 0"
      by simp_all
    from after_epochs_nonempty [OF ne(1) assms(2) ne(2), of t ?k s0] run
    have "r = None \<and> train_passes s1 = train_passes s0 + ?k \<and>
        validation_passes s1 = validation_passes s0 + ?k"
      by (simp add: after_epochs_def range_py_def)
    with after_epochs_batches [OF ne(1) assms(2) ne(2), of t s0 ?k] b(5)
    show ?thesis by (simp add: s1)
  qed
  with train_model_after_loop [OF b(1) run assms(2)]
    train_model_after_loop_batches [OF b(1) run assms(2)] b(2,3) show ?thesis
    by simp
qed

theorem train_model_passes_witness:
  "(0::int) \<le> num_epochs (demo_params 2 5) \<and>
   snd (train_model demo_torch (demo_params 2 5) demo_heap Map.empty) = None \<and>
   train_passes (fst (train_model demo_torch (demo_params 2 5) demo_heap Map.empty)) = 2 \<and>
   validation_passes (fst (train_model demo_torch (demo_params 2 5) demo_heap Map.empty)) = 4 \<and>
   batches_run Train (calls (fst (train_model demo_torch (demo_params 2 5) demo_heap Map.empty))) = 2 \<and>
   batches_run Validation (calls (fst (train_model demo_torch (demo_params 2 5) demo_heap Map.empty))) = 4"
proof -
  have a: "0 \<le> num_epochs (demo_params 2 5)"
    "dataset_len (validation_loader (demo_params 2 5)) \<noteq> 0"
    "num_epochs (demo_params 2 5) = 0 \<or>
     dataset_len (train_loader (demo_params 2 5)) \<noteq> 0 \<and> check_point (demo_params 2 5) \<noteq> 0"
    by (simp_all add: demo_params_def demo_loader_def)
  have n: "nat (num_epochs (demo_params 2 5)) = 2" "train_passes demo_heap = 0"
    "validation_passes demo_heap = 0"
    by (simp_all add: demo_params_def demo_heap_def)
  have l: "pass_batches (train_loader (demo_params 2 5)) k = [[(0, 0), (1, 1)]]"
    "pass_batches (validation_loader (demo_params 2 5)) k = [[(0, 0), (1, 1)], [(2, 1), (3, 1)]]" for k
    by (simp_all add: demo_params_def demo_loader_def)
  from train_model_passes [OF a, of demo_torch demo_heap Map.empty] a(1) show ?thesis
    by (simp add: n l)
qed

text \<open>
  C9 as stated fails: a run of two epochs makes four passes over the validation feed.
\<close>

theorem validation_feed_passes_exceed_epochs:
  "num_epochs (demo_params 2 5) = 2 \<and>
   snd (train_model demo_torch (demo_params 2 5) demo_heap Map.empty) = None \<and>
   validation_passes demo_heap = 0 \<and>
   validation_passes (fst (train_model demo_torch (demo_params 2 5) demo_heap Map.empty)) = 4"
  by (simp add: demo_train_2) (simp add: demo_params_def demo_heap_def)

text \<open>
  C4. In a run with epoch count \<open>E \<ge> 1\<close> and checkpoint interval \<open>c \<ge> 1\<close> (over
  non-empty datasets, so that the run completes), the checkpoint writes are exactly
  those of the epochs \<open>e\<close> of \<open>0..E-1\<close> with \<open>e mod c = 0\<close> or \<open>e = E - 1\<close>, in
  that order; each stores the value of \<open>best_model\<close> at the end of its epoch at the
  path \<open>state_dict_path + description + '.pt'\<close>. The run changes no other file, and
  the file holds the snapshot of the last write.
\<close>

theorem checkpoint_writes:
  assumes "1 \<le> num_epochs params" and "1 \<le> check_point params"
    and "dataset_len (train_loader params) \<noteq> 0"
    and "dataset_len (validation_loader params) \<noteq> 0"
  shows "\<exists>s0. begin_run t params h fs = Inr s0 \<and>
    snd (train_model t params h fs) = None \<and>
    saves (calls (fst (train_model t params h fs))) =
      map (\<lambda>e. (e, state_dict_path params @ description params @ ''.pt'',
                best_model (after_epochs t params s0 (Suc (nat e)))))
        (filter (\<lambda>e. e mod check_point params = 0 \<or> e = num_epochs params - 1)
           (range_py (num_epochs params))) \<and>
    files (fst (train_model t params h fs)) =
      fs(state_dict_path params @ description params @ ''.pt'' \<mapsto>
           best_model (after_epochs t params s0 (nat (num_epochs params))))"
proof -
  from assms(4) obtain s0 where b: "begin_run t params h fs = Inr s0"
    "train_passes s0 = train_passes h" "validation_passes s0 = Suc (validation_passes h)"
    "files s0 = fs" "calls s0 = [SummaryWriter (''runs/'' @ description params)]"
    by (rule begin_run_nonempty)
  let ?k = "nat (num_epochs params)"
  from assms(2) have c: "check_point params \<noteq> 0" by simp
  note a = after_epochs_nonempty [OF assms(3,4) c, of t ?k s0]
  obtain s1 r where run: "run_epochs t params (range_py (num_epochs params)) s0 = (s1, r)"
    by (cases "run_epochs t params (range_py (num_epochs params)) s0") auto
  then have s1: "after_epochs t params s0 ?k = s1" and r: "r = None"
    using a by (simp_all add: after_epochs_def range_py_def)
  from assms(1) have suc: "Suc (nat (num_epochs params - 1)) = ?k"
    by simp
  note l = checkpoint_epochs_last [OF assms(1)]
  have sv: "saves (calls s1) =
      map (\<lambda>e. (e, checkpoint_path params, best_model (after_epochs t params s0 (Suc (nat e)))))
        (checkpoint_epochs params ?k)"
    using a b(5) by (simp add: s1)
  have fl: "files s1 = fs(checkpoint_path params \<mapsto> best_model (after_epochs t params s0 ?k))"
    using a b(4) l suc by (simp add: s1)
  from train_model_after_loop [OF b(1) run assms(4)] sv fl r b(1) show ?thesis
    by (simp add: checkpoint_path_def checkpoint_epochs_def range_py_def)
qed

theorem checkpoint_writes_witness:
  "(1::int) \<le> num_epochs (demo_params 2 5) \<and> (1::int) \<le> check_point (demo_params 2 5) \<and>
   snd (train_model demo_torch (demo_params 2 5) demo_heap Map.empty) = None \<and>
   saves (calls (fst (train_model demo_torch (demo_params 2 5) demo_heap Map.empty))) =
     [(0, ''trained_models/densenet161.pt'', 1), (1, ''trained_models/densenet161.pt'', 1)] \<and>
   files (fst (train_model demo_torch (demo_params 2 5) demo_heap Map.empty)) =
     [''trained_models/densenet161.pt'' \<mapsto> 1]"
proof -
  have a: "1 \<le> num_epochs (demo_params 2 5)" "1 \<le> check_point (demo_params 2 5)"
    "dataset_len (train_loader (demo_params 2 5)) \<noteq> 0"
    "dataset_len (validation_loader (demo_params 2 5)) \<noteq> 0"
    by (simp_all add: demo_params_def demo_loader_def)
  from checkpoint_writes [OF a, of demo_torch demo_heap Map.empty]
  have "snd (train_model demo_torch (demo_params 2 5) demo_heap Map.empty) = None"
    by blast
  with a(1,2) show ?thesis
    by (simp add: demo_train_2)
qed

text \<open>
  C10. With checkpoint interval 0 and epoch count at least 1 (over non-empty datasets,
  so that the first epoch is reached and completes its two phases), \<open>train_model\<close>
  raises the modulo-by-zero error at the checkpoint condition of the first epoch: one
  pass over the training feed and the validation pass of that epoch have been made,
  the last call issued is the summary-writer call of the validation accuracy of epoch
  0, and no checkpoint and no file has been written.
\<close>

theorem zero_interval_raises:
  assumes "check_point params = 0" and "1 \<le> num_epochs params"
    and "dataset_len (train_loader params) \<noteq> 0"
    and "dataset_len (validation_loader params) \<noteq> 0"
  shows "snd (train_model t params h fs) = Some IntegerModuloByZero \<and>
    saves (calls (fst (train_model t params h fs))) = [] \<and>
    files (fst (train_model t params h fs)) = fs \<and>
    train_passes (fst (train_model t params h fs)) = train_passes h + 1 \<and>
    validation_passes (fst (train_model t params h fs)) = validation_passes h + 2 \<and>
    (\<exists>acc. last (calls (fst (train_model t params h fs))) = AddScalars ''Accuracy'' Validation acc 0)"
proof -
  from assms(4) obtain s0 where b: "begin_run t params h fs = Inr s0"
    "train_passes s0 = train_passes h" "validation_passes s0 = Suc (validation_passes h)"
    "files s0 = fs" "calls s0 = [SummaryWriter (''runs/'' @ description params)]"
    by (rule begin_run_nonempty)
  obtain s1 r where e: "epoch_step t params 0 s0 = (s1, r)"
    by (cases "epoch_step t params 0 s0") auto
  note f = epoch_step_nonempty [OF e assms(3,4)]
  from f(1) assms(1) have r: "r = Some IntegerModuloByZero" by simp
  from epoch_step_interval_0 [OF e assms(3,4,1)] obtain acc where
    l: "last (calls s1) = AddScalars ''Accuracy'' Validation acc 0"
    by blast
  have run: "run_epochs t params (range_py (num_epochs params)) s0 = (s1, Some IntegerModuloByZero)"
    by (simp add: range_py_pos [OF assms(2)] e r)
  then have w: "train_model t params h fs = (world_of s1, Some IntegerModuloByZero)"
    by (simp add: train_model_def b(1))
  from f(2-5) b(2-5) assms(1) l show ?thesis
    by (simp add: w)
qed

theorem zero_interval_raises_witness:
  "check_point (demo_params 2 0) = 0 \<and> 1 \<le> num_epochs (demo_params 2 0) \<and>
   snd (train_model demo_torch (demo_params 2 0) demo_heap Map.empty) = Some IntegerModuloByZero \<and>
   saves (calls (fst (train_model demo_torch (demo_params 2 0) demo_heap Map.empty))) = [] \<and>
   train_passes (fst (train_model demo_torch (demo_params 2 0) demo_heap Map.empty)) = 1 \<and>
   validation_passes (fst (train_model demo_torch (demo_params 2 0) demo_heap Map.empty)) = 2 \<and>
   last (calls (fst (train_model demo_torch (demo_params 2 0) demo_heap Map.empty))) =
     AddScalars ''Accuracy'' Validation (3 / 4) 0"
proof -
  have a: "check_point (demo_params 2 0) = 0" "1 \<le> num_epochs (demo_params 2 0)"
    "dataset_len (train_loader (demo_params 2 0)) \<noteq> 0"
    "dataset_len (validation_loader (demo_params 2 0)) \<noteq> 0"
    by (simp_all add: demo_params_def demo_loader_def)
  have l: "last (calls (fst (train_model demo_torch (demo_params 2 0) demo_heap Map.empty))) =
     AddScalars ''Accuracy'' Validation (3 / 4) 0"
    by (simp add: demo_train_interval_0)
  from zero_interval_raises [OF a, of demo_torch demo_heap Map.empty] a(1,2) l show ?thesis
    by (simp add: demo_heap_def)
qed

end
